theory Spec2Isabelle
  imports Main
begin

section \<open>Data model\<close>

text \<open>
  The scheduler of distrobuild (\<^verbatim>\<open>distrobuild_scheduler/periodic_tasks.py\<close>) works on two
  tables, \<^verbatim>\<open>Build\<close> and \<^verbatim>\<open>Package\<close>, and talks to koji, to the module build service and to
  the signer. Only the columns the scheduler reads or writes are kept.
\<close>

datatype BuildStatus = BUILDING | SUCCEEDED | FAILED | CANCELLED

record Build =
  build_pk :: int
  koji_id :: "int option"
  mbs_id :: "int option"
  package_id :: int
  status :: BuildStatus
  signed :: bool

record Package =
  package_pk :: int
  name :: string
  last_build :: "int option"

record database =
  builds :: "Build list"
  packages :: "Package list"

text \<open>
  Exceptions. \<^verbatim>\<open>koji.BuildError\<close> is a subclass of \<^verbatim>\<open>koji.GenericError\<close>; the constructor
  \<open>GenericError\<close> stands for an instance of \<^verbatim>\<open>koji.GenericError\<close> that is not a
  \<^verbatim>\<open>BuildError\<close>, \<open>Fault\<close> for \<^verbatim>\<open>xmlrpc.client.Fault\<close>. All of them derive from
  \<^verbatim>\<open>Exception\<close>.
\<close>

datatype exn = BuildError | Fault | GenericError | DoesNotExist | AttributeError | OtherException

text \<open>The dictionaries returned by koji, with the keys the scheduler reads.\<close>

record build_task =
  build_id :: int
  nvr :: string

record tag =
  tag_name :: string

record history =
  tag_listing :: "tag list option"

record rpm =
  rpm_id :: int
  rpm_nvr :: string
  rpm_arch :: string

record rpm_sig =
  sigkey :: string

text \<open>The values of \<^verbatim>\<open>koji.TASK_STATES\<close> that the scheduler compares with.\<close>

definition TASK_STATES_CLOSED :: int where "TASK_STATES_CLOSED = 2"
definition TASK_STATES_CANCELED :: int where "TASK_STATES_CANCELED = 3"
definition TASK_STATES_FAILED :: int where "TASK_STATES_FAILED = 5"

section \<open>Effects\<close>

text \<open>
  Every call that leaves the process is recorded, with its outcome (\<open>None\<close>: it returned,
  \<open>Some x\<close>: it raised \<open>x\<close>), next to the saves on the two tables, the log lines and the
  sleeps.
\<close>

datatype call =
    PackageListAdd string string string
  | ListBuilds int
  | QueryHistory int
  | TagBuild string string
  | ListBuildRPMs int
  | QueryRPMSigs int
  | WriteSignedRPM string string
  | GetTaskInfo int
  | GetTaskResult int
  | MbsGetBuild int
  | SignKojiPackage string

datatype event =
    Ext call "exn option"
  | SaveBuild Build
  | SavePackage Package
  | LogDebug string
  | LogError exn
  | Sleep int

text \<open>
  The collaborators are parameters: the koji session, the module build client, the signer
  (\<^verbatim>\<open>distrobuild_scheduler.sigul.sign_koji_package\<close>), the clock, the settings and
  \<^verbatim>\<open>tags.compose()\<close>. Each remote operation reads and changes a world \<open>'w\<close> that the
  scheduler does not see, and returns a value or raises.
\<close>

record 'w env =
  compose :: string
  sigul_key_id :: string
  disable_sigul :: bool
  packageListAdd :: "string \<Rightarrow> string \<Rightarrow> string \<Rightarrow> 'w \<Rightarrow> (exn + unit) \<times> 'w"
  listBuilds :: "int \<Rightarrow> 'w \<Rightarrow> (exn + build_task list) \<times> 'w"
  queryHistory :: "int \<Rightarrow> 'w \<Rightarrow> (exn + history) \<times> 'w"
  tagBuild :: "string \<Rightarrow> string \<Rightarrow> 'w \<Rightarrow> (exn + unit) \<times> 'w"
  listBuildRPMs :: "int \<Rightarrow> 'w \<Rightarrow> (exn + rpm list) \<times> 'w"
  queryRPMSigs :: "int \<Rightarrow> 'w \<Rightarrow> (exn + rpm_sig list) \<times> 'w"
  writeSignedRPM :: "string \<Rightarrow> string \<Rightarrow> 'w \<Rightarrow> (exn + unit) \<times> 'w"
  getTaskInfo :: "int \<Rightarrow> 'w \<Rightarrow> (exn + int) \<times> 'w"
  getTaskResult :: "int \<Rightarrow> 'w \<Rightarrow> (exn + string) \<times> 'w"
  get_build :: "int \<Rightarrow> 'w \<Rightarrow> (exn + string) \<times> 'w"
  sign_koji_package :: "string \<Rightarrow> 'w \<Rightarrow> (exn + unit) \<times> 'w"
  now :: "'w \<Rightarrow> int"

record 'w st =
  world :: 'w
  db :: database

text \<open>
  A piece of the scheduler takes the state and gives back its result (\<open>Inl\<close>: the exception
  that left it), the events it produced, in order, and the new state.
\<close>

type_synonym ('w, 'a) prog = "'w st \<Rightarrow> (exn + 'a) \<times> event list \<times> 'w st"

definition returnE :: "'a \<Rightarrow> ('w, 'a) prog" where
  "returnE v s = (Inr v, [], s)"

definition raiseE :: "exn \<Rightarrow> ('w, 'a) prog" where
  "raiseE x s = (Inl x, [], s)"

definition bindE :: "('w, 'a) prog \<Rightarrow> ('a \<Rightarrow> ('w, 'b) prog) \<Rightarrow> ('w, 'b) prog" where
  "bindE m f s =
     (case m s of
        (Inl x, evs, s1) \<Rightarrow> (Inl x, evs, s1)
      | (Inr v, evs, s1) \<Rightarrow> (case f v s1 of (r, evs2, s2) \<Rightarrow> (r, evs @ evs2, s2)))"

text \<open>\<^verbatim>\<open>try: m except Exception as x: h(x)\<close>\<close>

definition catchE :: "('w, 'a) prog \<Rightarrow> (exn \<Rightarrow> ('w, 'a) prog) \<Rightarrow> ('w, 'a) prog" where
  "catchE m h s =
     (case m s of
        (Inl x, evs, s1) \<Rightarrow> (case h x s1 of (r, evs2, s2) \<Rightarrow> (r, evs @ evs2, s2))
      | (Inr v, evs, s1) \<Rightarrow> (Inr v, evs, s1))"

definition call :: "call \<Rightarrow> ('w \<Rightarrow> (exn + 'a) \<times> 'w) \<Rightarrow> ('w, 'a) prog" where
  "call c op s =
     (case op (world s) of
        (r, w) \<Rightarrow> (r, [Ext c (case r of Inl x \<Rightarrow> Some x | Inr v \<Rightarrow> None)], s\<lparr>world := w\<rparr>))"

definition log_debug :: "string \<Rightarrow> ('w, unit) prog" where
  "log_debug msg s = (Inr (), [LogDebug msg], s)"

definition log_error :: "exn \<Rightarrow> ('w, unit) prog" where
  "log_error x s = (Inr (), [LogError x], s)"

definition sleep :: "int \<Rightarrow> ('w, unit) prog" where
  "sleep n s = (Inr (), [Sleep n], s)"

text \<open>\<^verbatim>\<open>datetime.datetime.now()\<close>\<close>

definition datetime_now :: "'w env \<Rightarrow> ('w, int) prog" where
  "datetime_now e s = (Inr (now e (world s)), [], s)"

subsection \<open>The record store\<close>

text \<open>\<^verbatim>\<open>save()\<close> of a row that was read from the table: an update of the row with that key.\<close>

definition update_build :: "Build \<Rightarrow> Build list \<Rightarrow> Build list" where
  "update_build b rows = map (\<lambda>r. if build_pk r = build_pk b then b else r) rows"

definition update_package :: "Package \<Rightarrow> Package list \<Rightarrow> Package list" where
  "update_package p rows = map (\<lambda>r. if package_pk r = package_pk p then p else r) rows"

definition save_build :: "Build \<Rightarrow> ('w, unit) prog" where
  "save_build b s =
     (Inr (), [SaveBuild b], s\<lparr>db := (db s)\<lparr>builds := update_build b (builds (db s))\<rparr>\<rparr>)"

definition save_package :: "Package \<Rightarrow> ('w, unit) prog" where
  "save_package p s =
     (Inr (), [SavePackage p], s\<lparr>db := (db s)\<lparr>packages := update_package p (packages (db s))\<rparr>\<rparr>)"

text \<open>\<^verbatim>\<open>Package.filter(id=i).get()\<close>\<close>

definition get_package :: "int \<Rightarrow> ('w, Package) prog" where
  "get_package i s =
     (case find (\<lambda>p. package_pk p = i) (packages (db s)) of
        None \<Rightarrow> (Inl DoesNotExist, [], s)
      | Some p \<Rightarrow> (Inr p, [], s))"

text \<open>\<^verbatim>\<open>Build.filter(status=BuildStatus.BUILDING).all()\<close>\<close>

definition filter_building :: "database \<Rightarrow> Build list" where
  "filter_building d = filter (\<lambda>b. status b = BUILDING) (builds d)"

text \<open>
  \<^verbatim>\<open>Build.filter(signed=False, status=BuildStatus.SUCCEEDED).prefetch_related("package").all()\<close>:
  each selected build comes with its package, when the table has it.
\<close>

definition filter_unsigned :: "database \<Rightarrow> (Build \<times> Package option) list" where
  "filter_unsigned d =
     map (\<lambda>b. (b, find (\<lambda>p. package_pk p = package_id b) (packages d)))
       (filter (\<lambda>b. signed b = False \<and> status b = SUCCEEDED) (builds d))"

text \<open>
  \<^verbatim>\<open>@atomic()\<close>: the body runs in a transaction; an exception that leaves it rolls the tables
  back. What was done outside the process stays done.
\<close>

definition atomic :: "('w, 'a) prog \<Rightarrow> ('w, 'a) prog" where
  "atomic m s =
     (case m s of
        (Inl x, evs, s1) \<Rightarrow> (Inl x, evs, s1\<lparr>db := db s\<rparr>)
      | (Inr v, evs, s1) \<Rightarrow> (Inr v, evs, s1))"

text \<open>The truth value Python gives an optional integer: \<^verbatim>\<open>None\<close> and \<^verbatim>\<open>0\<close> are false.\<close>

fun truthy :: "int option \<Rightarrow> bool" where
  "truthy None = False"
| "truthy (Some k) = (k \<noteq> 0)"

section \<open>Signing\<close>

text \<open>Lines 48 to 50: the loop over \<^verbatim>\<open>build_history["tag_listing"]\<close>.\<close>

fun tag_listing_loop :: "string \<Rightarrow> tag list \<Rightarrow> bool \<Rightarrow> bool" where
  "tag_listing_loop c [] should_tag = should_tag"
| "tag_listing_loop c (t # ts) should_tag =
     tag_listing_loop c ts (if tag_name t = c then False else should_tag)"

text \<open>
  Lines 58 to 60: the loop over \<^verbatim>\<open>rpm_sigs\<close>. Its \<^verbatim>\<open>continue\<close> goes on with the next
  signature of the same loop; the loop has no other statement.
\<close>

fun rpm_sigs_loop :: "string \<Rightarrow> rpm_sig list \<Rightarrow> unit" where
  "rpm_sigs_loop key [] = ()"
| "rpm_sigs_loop key (rpm_sig # rpm_sigs) =
     (if sigkey rpm_sig = key then rpm_sigs_loop key rpm_sigs else rpm_sigs_loop key rpm_sigs)"

text \<open>Lines 56 to 64: the loop over \<^verbatim>\<open>build_rpms\<close>.\<close>

fun build_rpms_loop :: "'w env \<Rightarrow> rpm list \<Rightarrow> ('w, unit) prog" where
  "build_rpms_loop e [] = returnE ()"
| "build_rpms_loop e (r # rs) =
     bindE (call (QueryRPMSigs (rpm_id r)) (queryRPMSigs e (rpm_id r))) (\<lambda>rpm_sigs.
       let _ = rpm_sigs_loop (sigul_key_id e) rpm_sigs;
           nvr_arch = rpm_nvr r @ ''.'' @ rpm_arch r in
       bindE (call (SignKojiPackage nvr_arch) (sign_koji_package e nvr_arch)) (\<lambda>_.
       bindE (call (WriteSignedRPM nvr_arch (sigul_key_id e))
                (writeSignedRPM e nvr_arch (sigul_key_id e))) (\<lambda>_.
       build_rpms_loop e rs)))"

text \<open>
  Lines 46 to 64: one pass of the loop over \<^verbatim>\<open>build_tasks\<close>, from the value of
  \<^verbatim>\<open>should_tag\<close> it starts with to the value it leaves.
\<close>

definition build_task_body :: "'w env \<Rightarrow> build_task \<Rightarrow> bool \<Rightarrow> ('w, bool) prog" where
  "build_task_body e build_task should_tag =
     bindE (call (QueryHistory (build_id build_task)) (queryHistory e (build_id build_task)))
       (\<lambda>build_history.
     let should_tag1 =
           (case tag_listing build_history of
              None \<Rightarrow> should_tag
            | Some tags \<Rightarrow> tag_listing_loop (compose e) tags should_tag) in
     bindE (if should_tag1
            then call (TagBuild (compose e) (nvr build_task))
                   (tagBuild e (compose e) (nvr build_task))
            else returnE ()) (\<lambda>_.
     bindE (call (ListBuildRPMs (build_id build_task)) (listBuildRPMs e (build_id build_task)))
       (\<lambda>build_rpms.
     bindE (build_rpms_loop e build_rpms) (\<lambda>_.
     returnE should_tag1))))"

text \<open>Lines 45 to 64: the loop over \<^verbatim>\<open>build_tasks\<close>; \<^verbatim>\<open>should_tag\<close> is carried along.\<close>

fun build_tasks_loop :: "'w env \<Rightarrow> build_task list \<Rightarrow> bool \<Rightarrow> ('w, bool) prog" where
  "build_tasks_loop e [] should_tag = returnE should_tag"
| "build_tasks_loop e (build_task # build_tasks) should_tag =
     bindE (build_task_body e build_task should_tag) (\<lambda>should_tag1.
       build_tasks_loop e build_tasks should_tag1)"

text \<open>\<^verbatim>\<open>build.package.name\<close> of a build whose package was prefetched.\<close>

definition package_name :: "Package option \<Rightarrow> ('w, string) prog" where
  "package_name p = (case p of None \<Rightarrow> raiseE AttributeError | Some q \<Rightarrow> returnE (name q))"

text \<open>Lines 39 to 67, the body under the decorator.\<close>

definition sign_unsigned_builds_body :: "'w env \<Rightarrow> Build \<times> Package option \<Rightarrow> ('w, unit) prog" where
  "sign_unsigned_builds_body e bp =
     (case bp of (build, package) \<Rightarrow>
        if truthy (koji_id build) then
          bindE (package_name package) (\<lambda>pname.
          bindE (call (PackageListAdd (compose e) pname ''distrobuild'')
                   (packageListAdd e (compose e) pname ''distrobuild'')) (\<lambda>_.
          bindE (call (ListBuilds (the (koji_id build))) (listBuilds e (the (koji_id build))))
            (\<lambda>build_tasks.
          bindE (build_tasks_loop e build_tasks True) (\<lambda>_.
          save_build (build\<lparr>signed := True\<rparr>)))))
        else returnE ())"

definition atomic_sign_unsigned_builds :: "'w env \<Rightarrow> Build \<times> Package option \<Rightarrow> ('w, unit) prog" where
  "atomic_sign_unsigned_builds e bp = atomic (sign_unsigned_builds_body e bp)"

section \<open>Status\<close>

text \<open>
  Lines 85 to 93: \<^verbatim>\<open>try\<close>, the two \<^verbatim>\<open>except\<close> clauses in their order, and \<^verbatim>\<open>finally\<close>,
  which saves the build whatever happened and lets an exception that no clause took go on.
\<close>

definition task_result_block :: "'w env \<Rightarrow> Build \<Rightarrow> ('w, unit) prog" where
  "task_result_block e build =
     catchE
       (bindE (call (GetTaskResult (the (koji_id build))) (getTaskResult e (the (koji_id build))))
          (\<lambda>task_result.
        bindE (log_debug task_result) (\<lambda>_.
        save_build build)))
       (\<lambda>x. if x = BuildError \<or> x = Fault then save_build (build\<lparr>status := FAILED\<rparr>)
            else if x = GenericError then save_build (build\<lparr>status := CANCELLED\<rparr>)
            else bindE (save_build build) (\<lambda>_. raiseE x))"

text \<open>Lines 75 to 80 and 98 to 103.\<close>

definition mark_succeeded :: "'w env \<Rightarrow> Build \<Rightarrow> ('w, unit) prog" where
  "mark_succeeded e build =
     bindE (save_build (build\<lparr>status := SUCCEEDED\<rparr>)) (\<lambda>_.
     bindE (get_package (package_id build)) (\<lambda>package.
     bindE (datetime_now e) (\<lambda>t.
     save_package (package\<lparr>last_build := Some t\<rparr>))))"

text \<open>Lines 71 to 106, the body under the decorator.\<close>

definition check_build_status_body :: "'w env \<Rightarrow> Build \<Rightarrow> ('w, unit) prog" where
  "check_build_status_body e build =
     (if truthy (koji_id build) then
        bindE (call (GetTaskInfo (the (koji_id build))) (getTaskInfo e (the (koji_id build))))
          (\<lambda>state.
          if state = TASK_STATES_CLOSED then mark_succeeded e build
          else if state = TASK_STATES_CANCELED then save_build (build\<lparr>status := CANCELLED\<rparr>)
          else if state = TASK_STATES_FAILED then task_result_block e build
          else returnE ())
      else if truthy (mbs_id build) then
        bindE (call (MbsGetBuild (the (mbs_id build))) (get_build e (the (mbs_id build))))
          (\<lambda>state.
          if state = ''ready'' then mark_succeeded e build
          else if state = ''failed'' then save_build (build\<lparr>status := FAILED\<rparr>)
          else returnE ())
      else returnE ())"

definition atomic_check_build_status :: "'w env \<Rightarrow> Build \<Rightarrow> ('w, unit) prog" where
  "atomic_check_build_status e build = atomic (check_build_status_body e build)"

section \<open>The two periodic tasks\<close>

text \<open>\<^verbatim>\<open>for build in builds: await f(build)\<close>\<close>

fun for_builds :: "('a \<Rightarrow> ('w, unit) prog) \<Rightarrow> 'a list \<Rightarrow> ('w, unit) prog" where
  "for_builds f [] = returnE ()"
| "for_builds f (b # bs) = bindE (f b) (\<lambda>_. for_builds f bs)"

text \<open>Lines 111 to 121: one pass of the \<^verbatim>\<open>while True\<close> of \<^verbatim>\<open>check_build_status\<close>.\<close>

definition check_build_status_cycle :: "'w env \<Rightarrow> ('w, unit) prog" where
  "check_build_status_cycle e =
     bindE (log_debug ''[*] Running periodic task: check_build_status'') (\<lambda>_.
     bindE (catchE
              (\<lambda>s. for_builds (atomic_check_build_status e) (filter_building (db s)) s)
              (\<lambda>x. log_error x)) (\<lambda>_.
     sleep (60 * 5)))"

text \<open>Lines 127 to 137: one pass of the \<^verbatim>\<open>while True\<close> of \<^verbatim>\<open>sign_unsigned_builds\<close>.\<close>

definition sign_unsigned_builds_cycle :: "'w env \<Rightarrow> ('w, unit) prog" where
  "sign_unsigned_builds_cycle e =
     bindE (log_debug ''[*] Running periodic task: sign_unsigned_builds'') (\<lambda>_.
     bindE (catchE
              (\<lambda>s. for_builds (atomic_sign_unsigned_builds e) (filter_unsigned (db s)) s)
              (\<lambda>x. log_error x)) (\<lambda>_.
     sleep (60 * 5)))"

text \<open>
  The two tasks loop for ever. \<open>check_build_status e n\<close> and \<open>sign_unsigned_builds e n\<close>
  are their first \<open>n\<close> passes; with signing disabled the second task has none.
\<close>

fun check_build_status :: "'w env \<Rightarrow> nat \<Rightarrow> ('w, unit) prog" where
  "check_build_status e 0 = returnE ()"
| "check_build_status e (Suc n) =
     bindE (check_build_status_cycle e) (\<lambda>_. check_build_status e n)"

fun sign_unsigned_builds_loop :: "'w env \<Rightarrow> nat \<Rightarrow> ('w, unit) prog" where
  "sign_unsigned_builds_loop e 0 = returnE ()"
| "sign_unsigned_builds_loop e (Suc n) =
     bindE (sign_unsigned_builds_cycle e) (\<lambda>_. sign_unsigned_builds_loop e n)"

definition sign_unsigned_builds :: "'w env \<Rightarrow> nat \<Rightarrow> ('w, unit) prog" where
  "sign_unsigned_builds e n =
     (if \<not> disable_sigul e then sign_unsigned_builds_loop e n else returnE ())"

text \<open>
  The two tasks share one event loop; \<open>run_cycles\<close> runs their passes one after the other
  in a given order.
\<close>

datatype periodic_task = Check_build_status | Sign_unsigned_builds

fun run_cycles :: "'w env \<Rightarrow> periodic_task list \<Rightarrow> ('w, unit) prog" where
  "run_cycles e [] = returnE ()"
| "run_cycles e (Check_build_status # ts) =
     bindE (check_build_status_cycle e) (\<lambda>_. run_cycles e ts)"
| "run_cycles e (Sign_unsigned_builds # ts) =
     bindE (if \<not> disable_sigul e then sign_unsigned_builds_cycle e else returnE ())
       (\<lambda>_. run_cycles e ts)"

section \<open>What the claims speak about\<close>

text \<open>The tag operations among some events, as (tag, NVR), in order.\<close>

fun tag_ops :: "event list \<Rightarrow> (string \<times> string) list" where
  "tag_ops [] = []"
| "tag_ops (Ext (TagBuild t n) out # evs) = (t, n) # tag_ops evs"
| "tag_ops (ev # evs) = tag_ops evs"


text \<open>The saves of builds among some events.\<close>

fun build_saves :: "event list \<Rightarrow> Build list" where
  "build_saves [] = []"
| "build_saves (SaveBuild b # evs) = b # build_saves evs"
| "build_saves (ev # evs) = build_saves evs"

text \<open>A history has an entry of \<^verbatim>\<open>tag_listing\<close> for the tag \<open>c\<close>.\<close>

definition tagged_in :: "string \<Rightarrow> history \<Rightarrow> bool" where
  "tagged_in c h =
     (case tag_listing h of None \<Rightarrow> False | Some tags \<Rightarrow> list_ex (\<lambda>t. tag_name t = c) tags)"

text \<open>The invariant of the tables: a signed build has succeeded.\<close>

definition signed_implies_succeeded :: "database \<Rightarrow> bool" where
  "signed_implies_succeeded d = list_all (\<lambda>b. signed b \<longrightarrow> status b = SUCCEEDED) (builds d)"

text \<open>
  A piece of the scheduler that leaves the tables alone, saves no build, and is left by
  the exception of any call of its own that raised.
\<close>

definition read_only :: "('w, 'a) prog \<Rightarrow> bool" where
  "read_only m =
     (\<forall>s r evs s'. m s = (r, evs, s') \<longrightarrow>
        db s' = db s \<and> build_saves evs = [] \<and>
        (\<forall>c y. Ext c (Some y) \<in> set evs \<longrightarrow> r = Inl y))"

section \<open>A small installation\<close>

text \<open>
  Fixed answers of koji, of the module build service and of the signer, for running the
  scheduler on concrete builds: task 42 is closed, task 43 has failed with a build error,
  the state of task 50 cannot be read; task 44 built \<^verbatim>\<open>foo-1.0-1\<close>, whose first RPM is
  already signed with the key; task 46 has two builds, the first of them already tagged;
  the signer fails on the RPM of task 47; task 48 is closed, and its builds cannot be
  listed.
\<close>

definition fake_env :: "unit env" where
  "fake_env =
     \<lparr>compose = ''dist-compose'',
      sigul_key_id = ''KEY'',
      disable_sigul = False,
      packageListAdd = (\<lambda>t p owner w. (Inr (), w)),
      listBuilds = (\<lambda>k w.
        (if k = 48 then Inl GenericError
         else Inr (if k = 44 then [\<lparr>build_id = 1, nvr = ''foo-1.0-1''\<rparr>]
              else if k = 46 then [\<lparr>build_id = 2, nvr = ''bar-1.0-1''\<rparr>,
                                   \<lparr>build_id = 3, nvr = ''baz-1.0-1''\<rparr>]
              else if k = 47 then [\<lparr>build_id = 4, nvr = ''qux-1.0-1''\<rparr>]
              else []), w)),
      queryHistory = (\<lambda>b w.
        (Inr \<lparr>tag_listing = (if b = 2 then Some [\<lparr>tag_name = ''dist-compose''\<rparr>]
                              else if b = 3 then Some [\<lparr>tag_name = ''dist-build''\<rparr>]
                              else None)\<rparr>, w)),
      tagBuild = (\<lambda>t n w. (Inr (), w)),
      listBuildRPMs = (\<lambda>b w.
        (Inr (if b = 1 then [\<lparr>rpm_id = 10, rpm_nvr = ''foo-1.0-1'', rpm_arch = ''x86_64''\<rparr>,
                             \<lparr>rpm_id = 11, rpm_nvr = ''foo-1.0-1'', rpm_arch = ''src''\<rparr>]
              else if b = 4 then [\<lparr>rpm_id = 12, rpm_nvr = ''qux-1.0-1'', rpm_arch = ''src''\<rparr>]
              else []), w)),
      queryRPMSigs = (\<lambda>r w. (Inr (if r = 10 then [\<lparr>sigkey = ''KEY''\<rparr>] else []), w)),
      writeSignedRPM = (\<lambda>n k w. (Inr (), w)),
      getTaskInfo = (\<lambda>k w.
        (if k = 50 then Inl Fault
         else Inr (if k = 42 \<or> k = 48 then TASK_STATES_CLOSED
                   else if k = 43 then TASK_STATES_FAILED
                   else 1), w)),
      getTaskResult = (\<lambda>k w. (Inl BuildError, w)),
      get_build = (\<lambda>m w.
        (Inr (if m = 7 then ''failed'' else if m = 8 then ''ready'' else ''build''), w)),
      sign_koji_package = (\<lambda>n w.
        (if n = ''qux-1.0-1.src'' then Inl OtherException else Inr (), w)),
      now = (\<lambda>w. 1000)\<rparr>"

definition koji_build :: "int \<Rightarrow> int \<Rightarrow> BuildStatus \<Rightarrow> Build" where
  "koji_build i k st =
     \<lparr>build_pk = i, koji_id = Some k, mbs_id = None, package_id = 1, status = st,
      signed = False\<rparr>"

definition mbs_build :: "int \<Rightarrow> int \<Rightarrow> BuildStatus \<Rightarrow> Build" where
  "mbs_build i m st =
     \<lparr>build_pk = i, koji_id = None, mbs_id = Some m, package_id = 1, status = st,
      signed = False\<rparr>"

definition foo_package :: Package where
  "foo_package = \<lparr>package_pk = 1, name = ''foo'', last_build = None\<rparr>"

definition store :: "Build list \<Rightarrow> unit st" where
  "store bs = \<lparr>world = (), db = \<lparr>builds = bs, packages = [foo_package]\<rparr>\<rparr>"

section \<open>Basic facts\<close>

lemma bindE_cases:
  assumes "bindE m f s = (r, evs, s')"
  obtains (raised) x where "m s = (Inl x, evs, s')" "r = Inl x"
  | (returned) v evs1 s1 evs2 where
      "m s = (Inr v, evs1, s1)" "f v s1 = (r, evs2, s')" "evs = evs1 @ evs2"
  using assms by (auto simp: bindE_def split: prod.splits sum.splits)

lemma call_cases:
  assumes "call c op s = (r, evs, s')"
  obtains w where "op (world s) = (r, w)"
    "evs = [Ext c (case r of Inl x \<Rightarrow> Some x | Inr v \<Rightarrow> None)]" "s' = s\<lparr>world := w\<rparr>"
  using assms by (auto simp: call_def split: prod.splits)

lemma fake_env_sel:
  "compose fake_env = ''dist-compose''"
  "sigul_key_id fake_env = ''KEY''"
  "disable_sigul fake_env = False"
  "packageListAdd fake_env t p ow w = (Inr (), w)"
  "listBuilds fake_env k w =
    (if k = 48 then Inl GenericError
     else Inr (if k = 44 then [\<lparr>build_id = 1, nvr = ''foo-1.0-1''\<rparr>]
          else if k = 46 then [\<lparr>build_id = 2, nvr = ''bar-1.0-1''\<rparr>,
                               \<lparr>build_id = 3, nvr = ''baz-1.0-1''\<rparr>]
          else if k = 47 then [\<lparr>build_id = 4, nvr = ''qux-1.0-1''\<rparr>]
          else []), w)"
  "queryHistory fake_env b w =
    (Inr \<lparr>tag_listing = (if b = 2 then Some [\<lparr>tag_name = ''dist-compose''\<rparr>]
                          else if b = 3 then Some [\<lparr>tag_name = ''dist-build''\<rparr>]
                          else None)\<rparr>, w)"
  "tagBuild fake_env t n w = (Inr (), w)"
  "listBuildRPMs fake_env b w =
    (Inr (if b = 1 then [\<lparr>rpm_id = 10, rpm_nvr = ''foo-1.0-1'', rpm_arch = ''x86_64''\<rparr>,
                         \<lparr>rpm_id = 11, rpm_nvr = ''foo-1.0-1'', rpm_arch = ''src''\<rparr>]
          else if b = 4 then [\<lparr>rpm_id = 12, rpm_nvr = ''qux-1.0-1'', rpm_arch = ''src''\<rparr>]
          else []), w)"
  "queryRPMSigs fake_env r w = (Inr (if r = 10 then [\<lparr>sigkey = ''KEY''\<rparr>] else []), w)"
  "writeSignedRPM fake_env n key w = (Inr (), w)"
  "getTaskInfo fake_env k w =
    (if k = 50 then Inl Fault
     else Inr (if k = 42 \<or> k = 48 then TASK_STATES_CLOSED
               else if k = 43 then TASK_STATES_FAILED
               else 1), w)"
  "getTaskResult fake_env k w = (Inl BuildError, w)"
  "get_build fake_env m w =
    (Inr (if m = 7 then ''failed'' else if m = 8 then ''ready'' else ''build''), w)"
  "sign_koji_package fake_env n w =
    (if n = ''qux-1.0-1.src'' then Inl OtherException else Inr (), w)"
  "now fake_env w = 1000"
  by (simp_all add: fake_env_def)

lemma task_states_distinct:
  "TASK_STATES_CLOSED \<noteq> TASK_STATES_CANCELED" "TASK_STATES_CLOSED \<noteq> TASK_STATES_FAILED"
  "TASK_STATES_CANCELED \<noteq> TASK_STATES_FAILED" "TASK_STATES_CANCELED \<noteq> TASK_STATES_CLOSED"
  "TASK_STATES_FAILED \<noteq> TASK_STATES_CLOSED" "TASK_STATES_FAILED \<noteq> TASK_STATES_CANCELED"
  by (simp_all add: TASK_STATES_CLOSED_def TASK_STATES_CANCELED_def TASK_STATES_FAILED_def)

section \<open>The status task on one build\<close>

text \<open>
  Claim C4. A build of koji whose task has failed: the status task asks for the result of
  the task. When that raises \<^verbatim>\<open>BuildError\<close> or \<^verbatim>\<open>Fault\<close> the build is saved with status
  \<open>FAILED\<close>; when it raises another \<^verbatim>\<open>GenericError\<close> the build is saved with status
  \<open>CANCELLED\<close>; when it returns, the result is logged and the build is saved as it is; any
  other exception goes on after the save, and the transaction is rolled back. In every case
  the save of the build is the last thing done.
\<close>

theorem C4_failed_task_result:
  assumes "truthy (koji_id b)"
    and "getTaskInfo e (the (koji_id b)) (world s) = (Inr TASK_STATES_FAILED, w1)"
    and "getTaskResult e (the (koji_id b)) w1 = (res, w2)"
  shows "atomic_check_build_status e b s =
    (case res of
       Inr task_result \<Rightarrow>
         (Inr (),
          [Ext (GetTaskInfo (the (koji_id b))) None, Ext (GetTaskResult (the (koji_id b))) None,
           LogDebug task_result, SaveBuild b],
          \<lparr>world = w2, db = (db s)\<lparr>builds := update_build b (builds (db s))\<rparr>\<rparr>)
     | Inl x \<Rightarrow>
         if x = BuildError \<or> x = Fault then
           (Inr (),
            [Ext (GetTaskInfo (the (koji_id b))) None,
             Ext (GetTaskResult (the (koji_id b))) (Some x),
             SaveBuild (b\<lparr>status := FAILED\<rparr>)],
            \<lparr>world = w2,
             db = (db s)\<lparr>builds := update_build (b\<lparr>status := FAILED\<rparr>) (builds (db s))\<rparr>\<rparr>)
         else if x = GenericError then
           (Inr (),
            [Ext (GetTaskInfo (the (koji_id b))) None,
             Ext (GetTaskResult (the (koji_id b))) (Some x),
             SaveBuild (b\<lparr>status := CANCELLED\<rparr>)],
            \<lparr>world = w2,
             db = (db s)\<lparr>builds := update_build (b\<lparr>status := CANCELLED\<rparr>) (builds (db s))\<rparr>\<rparr>)
         else
           (Inl x,
            [Ext (GetTaskInfo (the (koji_id b))) None,
             Ext (GetTaskResult (the (koji_id b))) (Some x),
             SaveBuild b],
            \<lparr>world = w2, db = db s\<rparr>))"
  using assms
  by (simp add: atomic_check_build_status_def atomic_def check_build_status_body_def bindE_def
      call_def task_result_block_def catchE_def save_build_def log_debug_def raiseE_def
      task_states_distinct split: sum.splits)

theorem C4_failed_task_result_witness:
  "truthy (koji_id (koji_build 3 43 BUILDING)) \<and>
   getTaskInfo fake_env 43 () = (Inr TASK_STATES_FAILED, ()) \<and>
   getTaskResult fake_env 43 () = (Inl BuildError, ()) \<and>
   atomic_check_build_status fake_env (koji_build 3 43 BUILDING)
     (store [koji_build 3 43 BUILDING]) =
     (Inr (), [Ext (GetTaskInfo 43) None, Ext (GetTaskResult 43) (Some BuildError),
               SaveBuild (koji_build 3 43 FAILED)],
      store [koji_build 3 43 FAILED])"
proof -
  have h1: "truthy (koji_id (koji_build 3 43 BUILDING))"
    by (simp add: koji_build_def)
  have h2: "getTaskInfo fake_env (the (koji_id (koji_build 3 43 BUILDING)))
      (world (store [koji_build 3 43 BUILDING])) = (Inr TASK_STATES_FAILED, ())"
    by (simp add: fake_env_sel koji_build_def task_states_distinct)
  have h3: "getTaskResult fake_env (the (koji_id (koji_build 3 43 BUILDING))) () =
      (Inl BuildError, ())"
    by (simp add: fake_env_sel)
  show ?thesis
    using C4_failed_task_result [OF h1 h2 h3] h1 h2 h3
    by (simp add: koji_build_def store_def update_build_def)
qed

text \<open>
  Claim C5. A build of koji whose task is closed is saved with status \<open>SUCCEEDED\<close>, and its
  package, when the table has it, is saved with \<^verbatim>\<open>last_build\<close> set to the time read after
  the answer of koji. For a task state other than closed, canceled or failed, nothing is
  saved and the tables stay as they are.
\<close>

theorem C5_closed_task:
  assumes "truthy (koji_id b)"
    and "getTaskInfo e (the (koji_id b)) (world s) = (Inr state, w1)"
  shows "(state = TASK_STATES_CLOSED \<and>
          find (\<lambda>p. package_pk p = package_id b) (packages (db s)) = Some p \<longrightarrow>
          atomic_check_build_status e b s =
            (Inr (),
             [Ext (GetTaskInfo (the (koji_id b))) None,
              SaveBuild (b\<lparr>status := SUCCEEDED\<rparr>),
              SavePackage (p\<lparr>last_build := Some (now e w1)\<rparr>)],
             \<lparr>world = w1,
              db = \<lparr>builds = update_build (b\<lparr>status := SUCCEEDED\<rparr>) (builds (db s)),
                    packages = update_package (p\<lparr>last_build := Some (now e w1)\<rparr>)
                                 (packages (db s))\<rparr>\<rparr>)) \<and>
         (state \<noteq> TASK_STATES_CLOSED \<and> state \<noteq> TASK_STATES_CANCELED \<and>
          state \<noteq> TASK_STATES_FAILED \<longrightarrow>
          atomic_check_build_status e b s =
            (Inr (), [Ext (GetTaskInfo (the (koji_id b))) None], s\<lparr>world := w1\<rparr>))"
  using assms
  by (simp add: atomic_check_build_status_def atomic_def check_build_status_body_def bindE_def
      call_def mark_succeeded_def save_build_def save_package_def get_package_def
      datetime_now_def returnE_def)

theorem C5_closed_task_witness:
  "truthy (koji_id (koji_build 2 42 BUILDING)) \<and>
   getTaskInfo fake_env 42 () = (Inr TASK_STATES_CLOSED, ()) \<and>
   find (\<lambda>p. package_pk p = package_id (koji_build 2 42 BUILDING))
     (packages (db (store [koji_build 2 42 BUILDING]))) = Some foo_package \<and>
   atomic_check_build_status fake_env (koji_build 2 42 BUILDING)
     (store [koji_build 2 42 BUILDING]) =
     (Inr (),
      [Ext (GetTaskInfo 42) None, SaveBuild (koji_build 2 42 SUCCEEDED),
       SavePackage (foo_package\<lparr>last_build := Some 1000\<rparr>)],
      \<lparr>world = (),
       db = \<lparr>builds = [koji_build 2 42 SUCCEEDED],
             packages = [foo_package\<lparr>last_build := Some 1000\<rparr>]\<rparr>\<rparr>) \<and>
   truthy (koji_id (koji_build 5 45 BUILDING)) \<and>
   getTaskInfo fake_env 45 () = (Inr 1, ()) \<and>
   atomic_check_build_status fake_env (koji_build 5 45 BUILDING)
     (store [koji_build 5 45 BUILDING]) =
     (Inr (), [Ext (GetTaskInfo 45) None], store [koji_build 5 45 BUILDING])"
proof -
  have h1: "truthy (koji_id (koji_build 2 42 BUILDING))"
    by (simp add: koji_build_def)
  have h2: "getTaskInfo fake_env (the (koji_id (koji_build 2 42 BUILDING)))
      (world (store [koji_build 2 42 BUILDING])) = (Inr TASK_STATES_CLOSED, ())"
    by (simp add: fake_env_sel koji_build_def)
  have h3: "find (\<lambda>p. package_pk p = package_id (koji_build 2 42 BUILDING))
     (packages (db (store [koji_build 2 42 BUILDING]))) = Some foo_package"
    by (simp add: store_def koji_build_def foo_package_def)
  have g1: "truthy (koji_id (koji_build 5 45 BUILDING))"
    by (simp add: koji_build_def)
  have g2: "getTaskInfo fake_env (the (koji_id (koji_build 5 45 BUILDING)))
      (world (store [koji_build 5 45 BUILDING])) = (Inr 1, ())"
    by (simp add: fake_env_sel koji_build_def)
  have g3: "(1::int) \<noteq> TASK_STATES_CLOSED \<and> 1 \<noteq> TASK_STATES_CANCELED \<and>
      1 \<noteq> TASK_STATES_FAILED"
    by (simp add: TASK_STATES_CLOSED_def TASK_STATES_CANCELED_def TASK_STATES_FAILED_def)
  show ?thesis
    using C5_closed_task [OF h1 h2, of foo_package] C5_closed_task [OF g1 g2] h1 h2 h3 g1 g2 g3
    by (simp add: koji_build_def store_def update_build_def update_package_def foo_package_def
        fake_env_sel)
qed

text \<open>
  Claim C6. A build of the module build service (no task of koji): state \<^verbatim>\<open>ready\<close> saves
  the build with status \<open>SUCCEEDED\<close> and the package with a new \<^verbatim>\<open>last_build\<close>; state
  \<^verbatim>\<open>failed\<close> saves the build with status \<open>FAILED\<close>, leaves the packages and the \<^verbatim>\<open>signed\<close>
  flag as they are; any other state changes nothing.
\<close>

theorem C6_module_build:
  assumes "\<not> truthy (koji_id b)" and "truthy (mbs_id b)"
    and "get_build e (the (mbs_id b)) (world s) = (Inr state, w1)"
  shows "(state = ''ready'' \<and>
          find (\<lambda>p. package_pk p = package_id b) (packages (db s)) = Some p \<longrightarrow>
          atomic_check_build_status e b s =
            (Inr (),
             [Ext (MbsGetBuild (the (mbs_id b))) None,
              SaveBuild (b\<lparr>status := SUCCEEDED\<rparr>),
              SavePackage (p\<lparr>last_build := Some (now e w1)\<rparr>)],
             \<lparr>world = w1,
              db = \<lparr>builds = update_build (b\<lparr>status := SUCCEEDED\<rparr>) (builds (db s)),
                    packages = update_package (p\<lparr>last_build := Some (now e w1)\<rparr>)
                                 (packages (db s))\<rparr>\<rparr>)) \<and>
         (state = ''failed'' \<longrightarrow>
          atomic_check_build_status e b s =
            (Inr (),
             [Ext (MbsGetBuild (the (mbs_id b))) None, SaveBuild (b\<lparr>status := FAILED\<rparr>)],
             \<lparr>world = w1,
              db = \<lparr>builds = update_build (b\<lparr>status := FAILED\<rparr>) (builds (db s)),
                    packages = packages (db s)\<rparr>\<rparr>) \<and>
          signed (b\<lparr>status := FAILED\<rparr>) = signed b) \<and>
         (state \<noteq> ''ready'' \<and> state \<noteq> ''failed'' \<longrightarrow>
          atomic_check_build_status e b s =
            (Inr (), [Ext (MbsGetBuild (the (mbs_id b))) None], s\<lparr>world := w1\<rparr>))"
  using assms
  by (simp add: atomic_check_build_status_def atomic_def check_build_status_body_def bindE_def
      call_def mark_succeeded_def save_build_def save_package_def get_package_def
      datetime_now_def returnE_def)

theorem C6_module_build_witness:
  "\<not> truthy (koji_id (mbs_build 6 7 BUILDING)) \<and> truthy (mbs_id (mbs_build 6 7 BUILDING)) \<and>
   get_build fake_env 7 () = (Inr ''failed'', ()) \<and>
   atomic_check_build_status fake_env (mbs_build 6 7 BUILDING) (store [mbs_build 6 7 BUILDING]) =
     (Inr (), [Ext (MbsGetBuild 7) None, SaveBuild (mbs_build 6 7 FAILED)],
      store [mbs_build 6 7 FAILED]) \<and>
   signed (mbs_build 6 7 FAILED) = False \<and>
   get_build fake_env 8 () = (Inr ''ready'', ()) \<and>
   atomic_check_build_status fake_env (mbs_build 7 8 BUILDING) (store [mbs_build 7 8 BUILDING]) =
     (Inr (),
      [Ext (MbsGetBuild 8) None, SaveBuild (mbs_build 7 8 SUCCEEDED),
       SavePackage (foo_package\<lparr>last_build := Some 1000\<rparr>)],
      \<lparr>world = (),
       db = \<lparr>builds = [mbs_build 7 8 SUCCEEDED],
             packages = [foo_package\<lparr>last_build := Some 1000\<rparr>]\<rparr>\<rparr>) \<and>
   get_build fake_env 9 () = (Inr ''build'', ()) \<and>
   atomic_check_build_status fake_env (mbs_build 8 9 BUILDING) (store [mbs_build 8 9 BUILDING]) =
     (Inr (), [Ext (MbsGetBuild 9) None], store [mbs_build 8 9 BUILDING])"
proof -
  have k: "\<not> truthy (koji_id (mbs_build i m BUILDING))" "truthy (mbs_id (mbs_build i m BUILDING)) = (m \<noteq> 0)"
    for i m
    by (simp_all add: mbs_build_def)
  have h7: "get_build fake_env (the (mbs_id (mbs_build 6 7 BUILDING)))
      (world (store [mbs_build 6 7 BUILDING])) = (Inr ''failed'', ())"
    by (simp add: fake_env_sel mbs_build_def)
  have h8: "get_build fake_env (the (mbs_id (mbs_build 7 8 BUILDING)))
      (world (store [mbs_build 7 8 BUILDING])) = (Inr ''ready'', ())"
    by (simp add: fake_env_sel mbs_build_def)
  have h9: "get_build fake_env (the (mbs_id (mbs_build 8 9 BUILDING)))
      (world (store [mbs_build 8 9 BUILDING])) = (Inr ''build'', ())"
    by (simp add: fake_env_sel mbs_build_def)
  have p: "find (\<lambda>p. package_pk p = package_id (mbs_build 7 8 BUILDING))
     (packages (db (store [mbs_build 7 8 BUILDING]))) = Some foo_package"
    by (simp add: store_def mbs_build_def foo_package_def)
  have t: "truthy (mbs_id (mbs_build 6 7 BUILDING))" "truthy (mbs_id (mbs_build 7 8 BUILDING))"
    "truthy (mbs_id (mbs_build 8 9 BUILDING))"
    by (simp_all add: k)
  show ?thesis
    using C6_module_build [OF k(1) t(1) h7] C6_module_build [OF k(1) t(2) h8, of foo_package]
      C6_module_build [OF k(1) t(3) h9] p t
    by (simp add: mbs_build_def store_def update_build_def update_package_def foo_package_def
        fake_env_sel)
qed

section \<open>The signing task on one build\<close>

text \<open>
  Claim C1. The claim is that an RPM that already has a signature with the configured key is
  not handed to the signer. The \<^verbatim>\<open>continue\<close> of line 60 belongs to the loop over the
  signatures, so the lines after that loop run for every RPM: for the build of task 44,
  whose RPM 10 is already signed with the key, the signer is invoked for both RPMs.
\<close>

theorem C1_signer_invoked_for_signed_rpm:
  "atomic_sign_unsigned_builds fake_env (koji_build 1 44 SUCCEEDED, Some foo_package)
     (store [koji_build 1 44 SUCCEEDED]) =
   (Inr (),
    [Ext (PackageListAdd ''dist-compose'' ''foo'' ''distrobuild'') None,
     Ext (ListBuilds 44) None,
     Ext (QueryHistory 1) None,
     Ext (TagBuild ''dist-compose'' ''foo-1.0-1'') None,
     Ext (ListBuildRPMs 1) None,
     Ext (QueryRPMSigs 10) None,
     Ext (SignKojiPackage ''foo-1.0-1.x86_64'') None,
     Ext (WriteSignedRPM ''foo-1.0-1.x86_64'' ''KEY'') None,
     Ext (QueryRPMSigs 11) None,
     Ext (SignKojiPackage ''foo-1.0-1.src'') None,
     Ext (WriteSignedRPM ''foo-1.0-1.src'' ''KEY'') None,
     SaveBuild ((koji_build 1 44 SUCCEEDED)\<lparr>signed := True\<rparr>)],
    store [(koji_build 1 44 SUCCEEDED)\<lparr>signed := True\<rparr>])
   \<and> queryRPMSigs fake_env 10 () = (Inr [\<lparr>sigkey = sigul_key_id fake_env\<rparr>], ())"
  by (simp add: atomic_sign_unsigned_builds_def sign_unsigned_builds_body_def build_task_body_def
      package_name_def bindE_def returnE_def call_def save_build_def atomic_def update_build_def
      fake_env_sel Let_def koji_build_def foo_package_def store_def)

subsection \<open>Tagging\<close>

lemma tag_ops_append: "tag_ops (xs @ ys) = tag_ops xs @ tag_ops ys"
  by (induction xs rule: tag_ops.induct) simp_all

lemma tag_listing_loop_eq:
  "tag_listing_loop c ts should_tag = (should_tag \<and> \<not> list_ex (\<lambda>t. tag_name t = c) ts)"
  by (induction ts arbitrary: should_tag) auto

lemma should_tag_after_history:
  "(case tag_listing h of None \<Rightarrow> should_tag | Some tags \<Rightarrow> tag_listing_loop c tags should_tag) =
   (should_tag \<and> \<not> tagged_in c h)"
  by (simp add: tagged_in_def tag_listing_loop_eq split: option.splits)

lemma build_rpms_loop_tag_ops:
  "build_rpms_loop e rs s = (r, evs, s') \<Longrightarrow> tag_ops evs = []"
proof (induction rs arbitrary: s r evs s')
  case Nil
  then show ?case by (simp add: returnE_def)
next
  case (Cons a rs)
  from Cons.prems show ?case
    apply (simp add: Let_def)
    apply (erule bindE_cases)
     apply (erule call_cases, simp)
    apply (erule call_cases)
    apply (erule bindE_cases)
     apply (erule call_cases, simp)
    apply (erule call_cases)
    apply (erule bindE_cases)
     apply (erule call_cases, simp)
    apply (erule call_cases)
    apply (simp add: tag_ops_append Cons.IH)
    done
qed


lemma call_tag_ops:
  "call c op s = (r, evs, s') \<Longrightarrow>
   tag_ops evs = (case c of TagBuild t n \<Rightarrow> [(t, n)] | _ \<Rightarrow> [])"
  by (erule call_cases) (simp split: call.splits)

lemma build_task_body_tags:
  assumes hist: "queryHistory e (build_id bt) (world s) = (Inr h, w1)"
    and run: "build_task_body e bt should_tag s = (r, evs, s')"
  shows "tag_ops evs =
           (if should_tag \<and> \<not> tagged_in (compose e) h then [(compose e, nvr bt)] else []) \<and>
         (case r of Inl x \<Rightarrow> True
          | Inr should_tag1 \<Rightarrow> should_tag1 = (should_tag \<and> \<not> tagged_in (compose e) h))"
proof -
  let ?st1 = "should_tag \<and> \<not> tagged_in (compose e) h"
  from run have run':
    "bindE (call (QueryHistory (build_id bt)) (queryHistory e (build_id bt)))
       (\<lambda>build_history.
     bindE (if (case tag_listing build_history of None \<Rightarrow> should_tag
                | Some tags \<Rightarrow> tag_listing_loop (compose e) tags should_tag)
            then call (TagBuild (compose e) (nvr bt)) (tagBuild e (compose e) (nvr bt))
            else returnE ()) (\<lambda>_.
     bindE (call (ListBuildRPMs (build_id bt)) (listBuildRPMs e (build_id bt)))
       (\<lambda>build_rpms.
     bindE (build_rpms_loop e build_rpms) (\<lambda>_.
     returnE (case tag_listing build_history of None \<Rightarrow> should_tag
              | Some tags \<Rightarrow> tag_listing_loop (compose e) tags should_tag))))) s = (r, evs, s')"
    by (simp add: build_task_body_def Let_def)
  from run' show ?thesis
  proof (cases rule: bindE_cases)
    case (raised x)
    with hist show ?thesis by (auto elim: call_cases)
  next
    case (returned v evs1 s1 evs2)
    from returned(1) hist have v: "v = h" and evs1: "tag_ops evs1 = []"
      by (auto elim!: call_cases)
    from returned(2) have rest:
      "bindE (if ?st1
            then call (TagBuild (compose e) (nvr bt)) (tagBuild e (compose e) (nvr bt))
            else returnE ()) (\<lambda>_.
       bindE (call (ListBuildRPMs (build_id bt)) (listBuildRPMs e (build_id bt)))
         (\<lambda>build_rpms.
       bindE (build_rpms_loop e build_rpms) (\<lambda>_. returnE ?st1))) s1 = (r, evs2, s')"
      by (simp add: v should_tag_after_history)
    from rest have "tag_ops evs2 = (if ?st1 then [(compose e, nvr bt)] else []) \<and>
         (case r of Inl x \<Rightarrow> True | Inr should_tag1 \<Rightarrow> should_tag1 = ?st1)"
    proof (cases rule: bindE_cases)
      case (raised x)
      then show ?thesis
        by (auto simp: returnE_def dest: call_tag_ops split: if_splits)
    next
      case tagp: (returned v2 evs3 s3 evs4)
      have t3: "tag_ops evs3 = (if ?st1 then [(compose e, nvr bt)] else [])"
        using tagp(1) by (auto simp: returnE_def dest: call_tag_ops split: if_splits)
      from tagp(2) have "tag_ops evs4 = [] \<and>
         (case r of Inl x \<Rightarrow> True | Inr should_tag1 \<Rightarrow> should_tag1 = ?st1)"
      proof (cases rule: bindE_cases)
        case (raised x)
        then show ?thesis by (auto dest: call_tag_ops)
      next
        case lst: (returned rpms evs5 s5 evs6)
        have t5: "tag_ops evs5 = []" using lst(1) by (auto dest: call_tag_ops)
        from lst(2) have "tag_ops evs6 = [] \<and>
           (case r of Inl x \<Rightarrow> True | Inr should_tag1 \<Rightarrow> should_tag1 = ?st1)"
        proof (cases rule: bindE_cases)
          case (raised x)
          then show ?thesis by (auto dest: build_rpms_loop_tag_ops)
        next
          case (returned u evs7 s7 evs8)
          then show ?thesis
            by (auto simp: returnE_def tag_ops_append dest: build_rpms_loop_tag_ops)
        qed
        with t5 lst(3) show ?thesis by (simp add: tag_ops_append)
      qed
      with t3 tagp(3) show ?thesis by (simp add: tag_ops_append)
    qed
    with evs1 returned(3) show ?thesis by (simp add: tag_ops_append)
  qed
qed


lemma build_task_body_raised:
  assumes "queryHistory e (build_id bt) (world s) = (Inl x, w1)"
    and "build_task_body e bt should_tag s = (r, evs, s')"
  shows "tag_ops evs = [] \<and> r = Inl x"
  using assms
  by (auto simp: build_task_body_def elim!: bindE_cases call_cases)

lemma bindE_assoc: "bindE (bindE m f) g = bindE m (\<lambda>v. bindE (f v) g)"
  by (rule ext) (simp add: bindE_def split: prod.splits sum.splits)

lemma bindE_returnE: "bindE (returnE v) f = f v"
  by (rule ext) (simp add: bindE_def returnE_def)

lemma bindE_after:
  "m s = (Inr v, evs1, s1) \<Longrightarrow> bindE m f s = (r, evs, s') \<Longrightarrow>
   \<exists>evs2. f v s1 = (r, evs2, s') \<and> evs = evs1 @ evs2"
  by (auto simp: bindE_def split: prod.splits)

lemma build_tasks_loop_append:
  "build_tasks_loop e (xs @ ys) should_tag =
   bindE (build_tasks_loop e xs should_tag) (build_tasks_loop e ys)"
proof (induction xs arbitrary: should_tag)
  case Nil
  show ?case by (simp add: bindE_returnE)
next
  case (Cons x xs)
  have "build_tasks_loop e (xs @ ys) =
      (\<lambda>v. bindE (build_tasks_loop e xs v) (build_tasks_loop e ys))"
    by (rule ext) (rule Cons.IH)
  then show ?case by (simp add: bindE_assoc)
qed

lemma build_tasks_loop_untagged:
  "build_tasks_loop e bts False s = (r, evs, s') \<Longrightarrow> tag_ops evs = []"
proof (induction bts arbitrary: s r evs s')
  case Nil
  then show ?case by (simp add: returnE_def)
next
  case (Cons bt bts)
  from Cons.prems have "bindE (build_task_body e bt False) (build_tasks_loop e bts) s = (r, evs, s')"
    by simp
  then show ?case
  proof (cases rule: bindE_cases)
    case (raised x)
    obtain q w where q: "queryHistory e (build_id bt) (world s) = (q, w)"
      by (cases "queryHistory e (build_id bt) (world s)")
    show ?thesis
    proof (cases q)
      case (Inl y)
      with q raised(1) show ?thesis by (auto dest: build_task_body_raised)
    next
      case (Inr h)
      with q raised(1) show ?thesis by (auto dest: build_task_body_tags)
    qed
  next
    case (returned v evs1 s1 evs2)
    obtain q w where q: "queryHistory e (build_id bt) (world s) = (q, w)"
      by (cases "queryHistory e (build_id bt) (world s)")
    have "tag_ops evs1 = [] \<and> v = False"
    proof (cases q)
      case (Inl y)
      with q returned(1) show ?thesis by (auto dest: build_task_body_raised)
    next
      case (Inr h)
      with q returned(1) show ?thesis by (auto dest: build_task_body_tags)
    qed
    with returned(2,3) Cons.IH show ?thesis by (auto simp: tag_ops_append)
  qed
qed

lemma fake_run_task_46:
  "build_tasks_loop fake_env
     [\<lparr>build_id = 2, nvr = ''bar-1.0-1''\<rparr>, \<lparr>build_id = 3, nvr = ''baz-1.0-1''\<rparr>] True (store bs) =
   (Inr False,
    [Ext (QueryHistory 2) None, Ext (ListBuildRPMs 2) None,
     Ext (QueryHistory 3) None, Ext (ListBuildRPMs 3) None],
    store bs)"
  by (simp add: build_task_body_def bindE_def returnE_def call_def fake_env_sel Let_def store_def)






text \<open>
  Claim C10. \<^verbatim>\<open>should_tag\<close> is shared by the passes of the loop and never set back to true:
  when the loop has come through the tasks \<open>pre\<close> and the history of the next task has an
  entry for the compose tag, no tag operation is issued for that task or for any task
  after it, whatever their histories say.
\<close>

theorem C10_should_tag_never_reset:
  assumes pre: "build_tasks_loop e pre should_tag s = (Inr st1, evs1, s1)"
    and hist: "queryHistory e (build_id bt) (world s1) = (Inr h, w)"
    and tagged: "tagged_in (compose e) h"
    and run: "build_tasks_loop e (pre @ bt # post) should_tag s = (r, evs, s')"
  shows "tag_ops evs = tag_ops evs1"
proof -
  have "build_tasks_loop e (bt # post) =
      (\<lambda>st. bindE (build_task_body e bt st) (build_tasks_loop e post))"
    by (rule ext) simp
  with run have "bindE (build_tasks_loop e pre should_tag)
      (\<lambda>st. bindE (build_task_body e bt st) (build_tasks_loop e post)) s = (r, evs, s')"
    by (simp only: build_tasks_loop_append)
  then obtain evs2 where
    rest: "bindE (build_task_body e bt st1) (build_tasks_loop e post) s1 = (r, evs2, s')"
    and evs: "evs = evs1 @ evs2"
    using pre by (auto dest: bindE_after)
  from rest have "tag_ops evs2 = []"
  proof (cases rule: bindE_cases)
    case (raised x)
    with hist tagged show ?thesis by (auto dest: build_task_body_tags)
  next
    case (returned v evs3 s3 evs4)
    from build_task_body_tags [OF hist returned(1)] tagged
    have "tag_ops evs3 = []" and "v = False" by simp_all
    with returned(2,3) show ?thesis
      by (auto simp: tag_ops_append dest: build_tasks_loop_untagged)
  qed
  with evs show ?thesis by (simp add: tag_ops_append)
qed

theorem C10_should_tag_never_reset_witness:
  "build_tasks_loop fake_env [] True (store []) = (Inr True, [], store []) \<and>
   queryHistory fake_env 2 () = (Inr \<lparr>tag_listing = Some [\<lparr>tag_name = ''dist-compose''\<rparr>]\<rparr>, ()) \<and>
   tagged_in (compose fake_env) \<lparr>tag_listing = Some [\<lparr>tag_name = ''dist-compose''\<rparr>]\<rparr> \<and>
   queryHistory fake_env 3 () = (Inr \<lparr>tag_listing = Some [\<lparr>tag_name = ''dist-build''\<rparr>]\<rparr>, ()) \<and>
   \<not> tagged_in (compose fake_env) \<lparr>tag_listing = Some [\<lparr>tag_name = ''dist-build''\<rparr>]\<rparr> \<and>
   build_tasks_loop fake_env
     [\<lparr>build_id = 2, nvr = ''bar-1.0-1''\<rparr>, \<lparr>build_id = 3, nvr = ''baz-1.0-1''\<rparr>] True (store []) =
   (Inr False,
    [Ext (QueryHistory 2) None, Ext (ListBuildRPMs 2) None,
     Ext (QueryHistory 3) None, Ext (ListBuildRPMs 3) None],
    store []) \<and>
   tag_ops [Ext (QueryHistory 2) None, Ext (ListBuildRPMs 2) None,
     Ext (QueryHistory 3) None, Ext (ListBuildRPMs 3) None] = []"
proof -
  let ?h = "\<lparr>tag_listing = Some [\<lparr>tag_name = ''dist-compose''\<rparr>]\<rparr>"
  let ?bt = "\<lparr>build_id = 2, nvr = ''bar-1.0-1''\<rparr>"
  let ?post = "[\<lparr>build_id = 3, nvr = ''baz-1.0-1''\<rparr>]"
  have pre: "build_tasks_loop fake_env [] True (store []) = (Inr True, [], store [])"
    by (simp add: returnE_def)
  have h: "queryHistory fake_env (build_id ?bt) (world (store [])) = (Inr ?h, ())"
    by (simp add: fake_env_sel)
  have t: "tagged_in (compose fake_env) ?h"
    by (simp add: tagged_in_def fake_env_sel)
  have run: "build_tasks_loop fake_env ([] @ ?bt # ?post) True (store []) =
   (Inr False,
    [Ext (QueryHistory 2) None, Ext (ListBuildRPMs 2) None,
     Ext (QueryHistory 3) None, Ext (ListBuildRPMs 3) None],
    store [])"
    using fake_run_task_46 [of "[]"] by simp
  have n: "\<not> tagged_in (compose fake_env) \<lparr>tag_listing = Some [\<lparr>tag_name = ''dist-build''\<rparr>]\<rparr>"
    by (simp add: tagged_in_def fake_env_sel)
  show ?thesis
    using C10_should_tag_never_reset [OF pre h t run] pre h t n run
    by (simp add: fake_env_sel)
qed

subsection \<open>Failure of the signer\<close>

lemma build_saves_append: "build_saves (xs @ ys) = build_saves xs @ build_saves ys"
  by (induction xs rule: build_saves.induct) simp_all

lemma read_only_returnE: "read_only (returnE v)"
  by (simp add: read_only_def returnE_def)

lemma read_only_raiseE: "read_only (raiseE x)"
  by (simp add: read_only_def raiseE_def)

lemma read_only_call: "read_only (call c op)"
  by (auto simp: read_only_def elim!: call_cases split: sum.splits)

lemma read_onlyD:
  "read_only m \<Longrightarrow> m s = (r, evs, s') \<Longrightarrow>
   db s' = db s \<and> build_saves evs = [] \<and> (\<forall>c y. Ext c (Some y) \<in> set evs \<longrightarrow> r = Inl y)"
  unfolding read_only_def by blast

lemma read_only_Inr:
  assumes "read_only m" and "m s = (Inr v, evs, s')"
  shows "db s' = db s \<and> build_saves evs = [] \<and> (\<forall>c y. Ext c (Some y) \<notin> set evs)"
  using read_onlyD [OF assms] by auto

lemma read_only_Inl:
  assumes "read_only m" and "m s = (Inl x, evs, s')"
  shows "db s' = db s \<and> build_saves evs = [] \<and> (\<forall>c y. Ext c (Some y) \<in> set evs \<longrightarrow> y = x)"
  using read_onlyD [OF assms] by auto

lemma read_only_bindE:
  assumes "read_only m" and "\<And>v. read_only (f v)"
  shows "read_only (bindE m f)"
  unfolding read_only_def
proof (intro allI impI)
  fix s r evs s'
  assume "bindE m f s = (r, evs, s')"
  then show "db s' = db s \<and> build_saves evs = [] \<and>
    (\<forall>c y. Ext c (Some y) \<in> set evs \<longrightarrow> r = Inl y)"
  proof (cases rule: bindE_cases)
    case (raised x)
    from read_only_Inl [OF assms(1) raised(1)] raised(2) show ?thesis by auto
  next
    case (returned v evs1 s1 evs2)
    from read_only_Inr [OF assms(1) returned(1)] have 1: "db s1 = db s" "build_saves evs1 = []"
      "\<forall>c y. Ext c (Some y) \<notin> set evs1"
      by simp_all
    from read_onlyD [OF assms(2) returned(2)] have 2: "db s' = db s1" "build_saves evs2 = []"
      "\<forall>c y. Ext c (Some y) \<in> set evs2 \<longrightarrow> r = Inl y"
      by simp_all
    from 1 2 returned(3) show ?thesis by (auto simp: build_saves_append)
  qed
qed

lemma read_only_build_rpms_loop: "read_only (build_rpms_loop e rs)"
  by (induction rs) (simp_all add: Let_def read_only_returnE read_only_bindE read_only_call)

lemma read_only_build_task_body: "read_only (build_task_body e bt should_tag)"
  by (simp add: build_task_body_def Let_def read_only_returnE read_only_bindE read_only_call
      read_only_build_rpms_loop)

lemma read_only_build_tasks_loop: "read_only (build_tasks_loop e bts should_tag)"
  by (induction bts arbitrary: should_tag)
    (simp_all add: read_only_returnE read_only_bindE read_only_build_task_body)

lemma read_only_package_name: "read_only (package_name p)"
  by (cases p) (simp_all add: package_name_def read_only_returnE read_only_raiseE)

lemma sign_body_cases:
  assumes run: "sign_unsigned_builds_body e (b, p) s = (r, evs, s')"
    and k: "truthy (koji_id b)"
  shows "(\<exists>x. r = Inl x \<and> db s' = db s \<and> build_saves evs = [] \<and>
            (\<forall>c y. Ext c (Some y) \<in> set evs \<longrightarrow> y = x)) \<or>
         (r = Inr () \<and> build_saves evs = [b\<lparr>signed := True\<rparr>] \<and>
          (\<forall>c y. Ext c (Some y) \<notin> set evs) \<and>
          db s' = (db s)\<lparr>builds := update_build (b\<lparr>signed := True\<rparr>) (builds (db s))\<rparr>)"
proof -
  let ?pre = "bindE (package_name p) (\<lambda>pname.
          bindE (call (PackageListAdd (compose e) pname ''distrobuild'')
                   (packageListAdd e (compose e) pname ''distrobuild'')) (\<lambda>_.
          bindE (call (ListBuilds (the (koji_id b))) (listBuilds e (the (koji_id b))))
            (\<lambda>build_tasks. build_tasks_loop e build_tasks True)))"
  have ro: "read_only ?pre"
    by (intro read_only_bindE read_only_package_name read_only_call read_only_build_tasks_loop)
  have "sign_unsigned_builds_body e (b, p) = bindE ?pre (\<lambda>_. save_build (b\<lparr>signed := True\<rparr>))"
    using k by (simp add: sign_unsigned_builds_body_def bindE_assoc)
  with run have "bindE ?pre (\<lambda>_. save_build (b\<lparr>signed := True\<rparr>)) s = (r, evs, s')"
    by simp
  then show ?thesis
  proof (cases rule: bindE_cases)
    case (raised x)
    from read_only_Inl [OF ro raised(1)] raised(2) show ?thesis by auto
  next
    case (returned v evs1 s1 evs2)
    from read_only_Inr [OF ro returned(1)] have "db s1 = db s" "build_saves evs1 = []"
      "\<forall>c y. Ext c (Some y) \<notin> set evs1"
      by simp_all
    with returned(2,3) show ?thesis
      by (auto simp: save_build_def build_saves_append)
  qed
qed

lemma atomic_sign_cases:
  assumes run: "atomic_sign_unsigned_builds e (b, p) s = (r, evs, s')"
  shows "(r = Inr () \<and> evs = [] \<and> s' = s \<and> \<not> truthy (koji_id b)) \<or>
         (\<exists>x. r = Inl x \<and> db s' = db s \<and> build_saves evs = [] \<and>
            (\<forall>c y. Ext c (Some y) \<in> set evs \<longrightarrow> y = x)) \<or>
         (r = Inr () \<and> build_saves evs = [b\<lparr>signed := True\<rparr>] \<and>
          (\<forall>c y. Ext c (Some y) \<notin> set evs) \<and> truthy (koji_id b) \<and>
          db s' = (db s)\<lparr>builds := update_build (b\<lparr>signed := True\<rparr>) (builds (db s))\<rparr>)"
proof (cases "truthy (koji_id b)")
  case False
  with run show ?thesis
    by (auto simp: atomic_sign_unsigned_builds_def atomic_def sign_unsigned_builds_body_def
        returnE_def)
next
  case True
  obtain r0 evs0 s0 where body: "sign_unsigned_builds_body e (b, p) s = (r0, evs0, s0)"
    by (cases "sign_unsigned_builds_body e (b, p) s") auto
  from sign_body_cases [OF body True] show ?thesis
  proof
    assume "\<exists>x. r0 = Inl x \<and> db s0 = db s \<and> build_saves evs0 = [] \<and>
            (\<forall>c y. Ext c (Some y) \<in> set evs0 \<longrightarrow> y = x)"
    then obtain x where x: "r0 = Inl x" "build_saves evs0 = []"
      "\<forall>c y. Ext c (Some y) \<in> set evs0 \<longrightarrow> y = x"
      by blast
    from run body x(1) have "r = Inl x" "evs = evs0" "db s' = db s"
      by (auto simp: atomic_sign_unsigned_builds_def atomic_def)
    with x show ?thesis by blast
  next
    assume a: "r0 = Inr () \<and> build_saves evs0 = [b\<lparr>signed := True\<rparr>] \<and>
          (\<forall>c y. Ext c (Some y) \<notin> set evs0) \<and>
          db s0 = (db s)\<lparr>builds := update_build (b\<lparr>signed := True\<rparr>) (builds (db s))\<rparr>"
    with run body have "r = Inr ()" "evs = evs0" "s' = s0"
      by (auto simp: atomic_sign_unsigned_builds_def atomic_def)
    with a True show ?thesis by blast
  qed
qed

lemma fake_sign_47:
  "atomic_sign_unsigned_builds fake_env (koji_build 1 47 SUCCEEDED, Some foo_package) (store bs) =
   (Inl OtherException,
    [Ext (PackageListAdd ''dist-compose'' ''foo'' ''distrobuild'') None,
     Ext (ListBuilds 47) None,
     Ext (QueryHistory 4) None,
     Ext (TagBuild ''dist-compose'' ''qux-1.0-1'') None,
     Ext (ListBuildRPMs 4) None,
     Ext (QueryRPMSigs 12) None,
     Ext (SignKojiPackage ''qux-1.0-1.src'') (Some OtherException)],
    store bs)"
  by (simp add: atomic_sign_unsigned_builds_def sign_unsigned_builds_body_def build_task_body_def
      package_name_def bindE_def returnE_def call_def save_build_def atomic_def update_build_def
      fake_env_sel Let_def koji_build_def foo_package_def store_def)

section \<open>The periodic tasks\<close>

subsection \<open>What a pass keeps\<close>

lemma save_build_db:
  "save_build c s = (r, evs, s') \<Longrightarrow>
   r = Inr () \<and> db s' = (db s)\<lparr>builds := update_build c (builds (db s))\<rparr>"
  by (auto simp: save_build_def)

lemma mark_succeeded_builds:
  "mark_succeeded e b s = (r, evs, s') \<Longrightarrow>
   builds (db s') = update_build (b\<lparr>status := SUCCEEDED\<rparr>) (builds (db s))"
  by (auto simp: mark_succeeded_def bindE_def save_build_def save_package_def get_package_def
      datetime_now_def split: option.splits)

lemma task_result_block_builds:
  "task_result_block e b s = (r, evs, s') \<Longrightarrow>
   \<exists>st. builds (db s') = update_build (b\<lparr>status := st\<rparr>) (builds (db s))"
proof -
  assume run: "task_result_block e b s = (r, evs, s')"
  obtain q w where q: "getTaskResult e (the (koji_id b)) (world s) = (q, w)"
    by (cases "getTaskResult e (the (koji_id b)) (world s)")
  have b: "b = b\<lparr>status := status b\<rparr>" by simp
  show ?thesis
  proof (cases q)
    case (Inr v)
    with run q have "builds (db s') = update_build b (builds (db s))"
      by (auto simp: task_result_block_def catchE_def bindE_def call_def log_debug_def
          save_build_def)
    with b show ?thesis by metis
  next
    case (Inl x)
    with run q have "builds (db s') = update_build (b\<lparr>status := FAILED\<rparr>) (builds (db s)) \<or>
        builds (db s') = update_build (b\<lparr>status := CANCELLED\<rparr>) (builds (db s)) \<or>
        builds (db s') = update_build b (builds (db s))"
      by (auto simp: task_result_block_def catchE_def bindE_def call_def save_build_def raiseE_def
          split: if_splits)
    with b show ?thesis by metis
  qed
qed

lemma check_body_builds:
  assumes run: "check_build_status_body e b s = (r, evs, s')"
  shows "builds (db s') = builds (db s) \<or>
         (\<exists>st. builds (db s') = update_build (b\<lparr>status := st\<rparr>) (builds (db s)))"
proof (cases "truthy (koji_id b)")
  case True
  with run have "bindE (call (GetTaskInfo (the (koji_id b))) (getTaskInfo e (the (koji_id b))))
          (\<lambda>state.
          if state = TASK_STATES_CLOSED then mark_succeeded e b
          else if state = TASK_STATES_CANCELED then save_build (b\<lparr>status := CANCELLED\<rparr>)
          else if state = TASK_STATES_FAILED then task_result_block e b
          else returnE ()) s = (r, evs, s')"
    by (simp add: check_build_status_body_def)
  then show ?thesis
  proof (cases rule: bindE_cases)
    case (raised x)
    then show ?thesis by (auto elim: call_cases)
  next
    case (returned v evs1 s1 evs2)
    from returned(1) have s1: "db s1 = db s" by (auto elim: call_cases)
    consider (closed) "mark_succeeded e b s1 = (r, evs2, s')"
      | (canceled) "save_build (b\<lparr>status := CANCELLED\<rparr>) s1 = (r, evs2, s')"
      | (failed) "task_result_block e b s1 = (r, evs2, s')"
      | (other) "returnE () s1 = (r, evs2, s')"
      using returned(2) by (auto split: if_splits)
    then show ?thesis
    proof cases
      case closed
      from mark_succeeded_builds [OF closed] s1 show ?thesis by auto
    next
      case canceled
      from save_build_db [OF canceled] s1 show ?thesis by auto
    next
      case failed
      from task_result_block_builds [OF failed] s1 show ?thesis by auto
    next
      case other
      with s1 show ?thesis by (auto simp: returnE_def)
    qed
  qed
next
  case False
  show ?thesis
  proof (cases "truthy (mbs_id b)")
    case True
    with run \<open>\<not> truthy (koji_id b)\<close>
    have "bindE (call (MbsGetBuild (the (mbs_id b))) (get_build e (the (mbs_id b))))
          (\<lambda>state.
          if state = ''ready'' then mark_succeeded e b
          else if state = ''failed'' then save_build (b\<lparr>status := FAILED\<rparr>)
          else returnE ()) s = (r, evs, s')"
      by (simp add: check_build_status_body_def)
    then show ?thesis
    proof (cases rule: bindE_cases)
      case (raised x)
      then show ?thesis by (auto elim: call_cases)
    next
      case (returned v evs1 s1 evs2)
      from returned(1) have s1: "db s1 = db s" by (auto elim: call_cases)
      consider (ready) "mark_succeeded e b s1 = (r, evs2, s')"
        | (failed) "save_build (b\<lparr>status := FAILED\<rparr>) s1 = (r, evs2, s')"
        | (other) "returnE () s1 = (r, evs2, s')"
        using returned(2) by (auto split: if_splits)
      then show ?thesis
      proof cases
        case ready
        from mark_succeeded_builds [OF ready] s1 show ?thesis by auto
      next
        case failed
        from save_build_db [OF failed] s1 show ?thesis by auto
      next
        case other
        with s1 show ?thesis by (auto simp: returnE_def)
      qed
    qed
  next
    case False
    with run \<open>\<not> truthy (koji_id b)\<close> show ?thesis
      by (simp add: check_build_status_body_def returnE_def)
  qed
qed

lemma atomic_check_builds:
  assumes run: "atomic_check_build_status e b s = (r, evs, s')"
  shows "builds (db s') = builds (db s) \<or>
         (\<exists>st. builds (db s') = update_build (b\<lparr>status := st\<rparr>) (builds (db s)))"
proof -
  obtain r0 evs0 s0 where body: "check_build_status_body e b s = (r0, evs0, s0)"
    by (cases "check_build_status_body e b s") auto
  show ?thesis
  proof (cases r0)
    case (Inl x)
    with run body show ?thesis by (auto simp: atomic_check_build_status_def atomic_def)
  next
    case (Inr v)
    with run body have "s' = s0" by (auto simp: atomic_check_build_status_def atomic_def)
    with check_body_builds [OF body] show ?thesis by simp
  qed
qed

lemma for_builds_invariant:
  assumes run: "for_builds f bs s = (r, evs, s')"
    and init: "P s"
    and step: "\<And>b t r evs t'. b \<in> set bs \<Longrightarrow> P t \<Longrightarrow> f b t = (r, evs, t') \<Longrightarrow> P t'"
  shows "P s'"
  using run init step
proof (induction bs arbitrary: s r evs s')
  case Nil
  then show ?case by (simp add: returnE_def)
next
  case (Cons b bs)
  from Cons.prems(1) have "bindE (f b) (\<lambda>_. for_builds f bs) s = (r, evs, s')"
    by simp
  then show ?case
  proof (cases rule: bindE_cases)
    case (raised x)
    from Cons.prems(3) [OF _ Cons.prems(2) raised(1)] show ?thesis by simp
  next
    case (returned v evs1 s1 evs2)
    from Cons.prems(3) [OF _ Cons.prems(2) returned(1)] have "P s1" by simp
    show ?thesis
    proof (rule Cons.IH [OF returned(2) \<open>P s1\<close>])
      fix c t r evs t'
      assume "c \<in> set bs" "P t" "f c t = (r, evs, t')"
      then show "P t'" using Cons.prems(3) [of c t r evs t'] by simp
    qed
  qed
qed

lemma catch_log_invariant:
  assumes run: "catchE m log_error s = (r, evs, s')"
    and m: "\<And>r evs t. m s = (r, evs, t) \<Longrightarrow> Q (db t)"
  shows "Q (db s') \<and> r = Inr ()"
proof -
  obtain r0 evs0 s0 where m0: "m s = (r0, evs0, s0)"
    by (cases "m s") auto
  from m [OF m0] run m0 show ?thesis
    by (cases r0) (auto simp: catchE_def log_error_def)
qed

lemma check_cycle_invariant:
  assumes run: "check_build_status_cycle e s = (r, evs, s')"
    and init: "Q (db s)"
    and step: "\<And>b t r evs t'. b \<in> set (filter_building (db s)) \<Longrightarrow> Q (db t) \<Longrightarrow>
      atomic_check_build_status e b t = (r, evs, t') \<Longrightarrow> Q (db t')"
  shows "Q (db s') \<and> r = Inr ()"
proof -
  let ?m = "\<lambda>s. for_builds (atomic_check_build_status e) (filter_building (db s)) s"
  obtain r1 evs1 s1 where c: "catchE ?m log_error s = (r1, evs1, s1)"
    by (cases "catchE ?m log_error s") auto
  have "Q (db s1) \<and> r1 = Inr ()"
  proof (rule catch_log_invariant [OF c])
    fix r evs t
    assume "for_builds (atomic_check_build_status e) (filter_building (db s)) s = (r, evs, t)"
    then show "Q (db t)"
      by (rule for_builds_invariant [where P = "\<lambda>s. Q (db s)"]) (use init step in auto)
  qed
  with run c show ?thesis
    by (auto simp: check_build_status_cycle_def bindE_def log_debug_def sleep_def)
qed

lemma sign_cycle_invariant:
  assumes run: "sign_unsigned_builds_cycle e s = (r, evs, s')"
    and init: "Q (db s)"
    and step: "\<And>b t r evs t'. b \<in> set (filter_unsigned (db s)) \<Longrightarrow> Q (db t) \<Longrightarrow>
      atomic_sign_unsigned_builds e b t = (r, evs, t') \<Longrightarrow> Q (db t')"
  shows "Q (db s') \<and> r = Inr ()"
proof -
  let ?m = "\<lambda>s. for_builds (atomic_sign_unsigned_builds e) (filter_unsigned (db s)) s"
  obtain r1 evs1 s1 where c: "catchE ?m log_error s = (r1, evs1, s1)"
    by (cases "catchE ?m log_error s") auto
  have "Q (db s1) \<and> r1 = Inr ()"
  proof (rule catch_log_invariant [OF c])
    fix r evs t
    assume "for_builds (atomic_sign_unsigned_builds e) (filter_unsigned (db s)) s = (r, evs, t)"
    then show "Q (db t)"
      by (rule for_builds_invariant [where P = "\<lambda>s. Q (db s)"]) (use init step in auto)
  qed
  with run c show ?thesis
    by (auto simp: sign_unsigned_builds_cycle_def bindE_def log_debug_def sleep_def)
qed

lemma run_cycles_invariant:
  assumes run: "run_cycles e ts s = (r, evs, s')"
    and init: "Q (db s)"
    and check: "\<And>s r evs s'. Q (db s) \<Longrightarrow> check_build_status_cycle e s = (r, evs, s') \<Longrightarrow>
      Q (db s')"
    and sign: "\<And>s r evs s'. Q (db s) \<Longrightarrow> sign_unsigned_builds_cycle e s = (r, evs, s') \<Longrightarrow>
      Q (db s')"
  shows "Q (db s')"
  using run init
proof (induction ts arbitrary: s r evs s')
  case Nil
  then show ?case by (simp add: returnE_def)
next
  case (Cons t ts)
  show ?case
  proof (cases t)
    case Check_build_status
    with Cons.prems(1)
    have "bindE (check_build_status_cycle e) (\<lambda>_. run_cycles e ts) s = (r, evs, s')"
      by simp
    then show ?thesis
    proof (cases rule: bindE_cases)
      case (raised x)
      from check [OF Cons.prems(2) raised(1)] show ?thesis .
    next
      case (returned v evs1 s1 evs2)
      from check [OF Cons.prems(2) returned(1)] have "Q (db s1)" .
      from Cons.IH [OF returned(2) this] show ?thesis .
    qed
  next
    case Sign_unsigned_builds
    with Cons.prems(1)
    have "bindE (if \<not> disable_sigul e then sign_unsigned_builds_cycle e else returnE ())
        (\<lambda>_. run_cycles e ts) s = (r, evs, s')"
      by simp
    then show ?thesis
    proof (cases rule: bindE_cases)
      case (raised x)
      with sign [OF Cons.prems(2)] Cons.prems(2) show ?thesis
        by (auto simp: returnE_def split: if_splits)
    next
      case (returned v evs1 s1 evs2)
      with sign [OF Cons.prems(2)] Cons.prems(2) have "Q (db s1)"
        by (auto simp: returnE_def split: if_splits)
      from Cons.IH [OF returned(2) this] show ?thesis .
    qed
  qed
qed

lemma invariant_update:
  assumes "signed_implies_succeeded d" and "signed c \<longrightarrow> status c = SUCCEEDED"
    and "builds d' = builds d \<or> builds d' = update_build c (builds d)"
  shows "signed_implies_succeeded d'"
  using assms by (auto simp: signed_implies_succeeded_def update_build_def list_all_iff)

lemma filter_building_set:
  "c \<in> set (filter_building d) \<longleftrightarrow> c \<in> set (builds d) \<and> status c = BUILDING"
  by (auto simp: filter_building_def)

lemma filter_unsigned_set:
  "(c, p) \<in> set (filter_unsigned d) \<longleftrightarrow>
   c \<in> set (builds d) \<and> \<not> signed c \<and> status c = SUCCEEDED \<and>
   p = find (\<lambda>p. package_pk p = package_id c) (packages d)"
  by (auto simp: filter_unsigned_def)

lemma check_cycle_signed_implies_succeeded:
  assumes inv: "signed_implies_succeeded (db s)"
    and run: "check_build_status_cycle e s = (r, evs, s')"
  shows "signed_implies_succeeded (db s')"
proof -
  have "signed_implies_succeeded (db s') \<and> r = Inr ()"
  proof (rule check_cycle_invariant [where Q = signed_implies_succeeded, OF run inv])
    fix b t r evs t'
    assume b: "b \<in> set (filter_building (db s))"
      and t: "signed_implies_succeeded (db t)"
      and step: "atomic_check_build_status e b t = (r, evs, t')"
    from b inv have ns: "\<not> signed b"
      by (auto simp: filter_building_set signed_implies_succeeded_def list_all_iff)
    from atomic_check_builds [OF step]
    obtain st where d: "builds (db t') = builds (db t) \<or>
        builds (db t') = update_build (b\<lparr>status := st\<rparr>) (builds (db t))"
      by blast
    from ns have "signed (b\<lparr>status := st\<rparr>) \<longrightarrow> status (b\<lparr>status := st\<rparr>) = SUCCEEDED"
      by simp
    from invariant_update [OF t this d] show "signed_implies_succeeded (db t')" .
  qed
  then show ?thesis ..
qed

lemma sign_cycle_signed_implies_succeeded:
  assumes inv: "signed_implies_succeeded (db s)"
    and run: "sign_unsigned_builds_cycle e s = (r, evs, s')"
  shows "signed_implies_succeeded (db s')"
proof -
  have "signed_implies_succeeded (db s') \<and> r = Inr ()"
  proof (rule sign_cycle_invariant [where Q = signed_implies_succeeded, OF run inv])
    fix bp t r evs t'
    assume bp: "bp \<in> set (filter_unsigned (db s))"
      and t: "signed_implies_succeeded (db t)"
      and step: "atomic_sign_unsigned_builds e bp t = (r, evs, t')"
    obtain b p where [simp]: "bp = (b, p)" by (cases bp)
    from bp have ok: "status b = SUCCEEDED"
      by (simp add: filter_unsigned_set)
    from atomic_sign_cases [OF step [simplified]]
    have d: "builds (db t') = builds (db t) \<or>
        builds (db t') = update_build (b\<lparr>signed := True\<rparr>) (builds (db t))"
      by auto
    from ok have "signed (b\<lparr>signed := True\<rparr>) \<longrightarrow> status (b\<lparr>signed := True\<rparr>) = SUCCEEDED"
      by simp
    from invariant_update [OF t this d] show "signed_implies_succeeded (db t')" .
  qed
  then show ?thesis ..
qed

text \<open>
  Claim C3. A signed build has succeeded: this holds of the tables after any sequence of
  passes of the two tasks when it held before. The signing task, which alone sets
  \<^verbatim>\<open>signed\<close>, is run on builds selected with status \<open>SUCCEEDED\<close> and not signed; the status
  task, which alone sets \<^verbatim>\<open>status\<close>, is run on builds selected with status \<open>BUILDING\<close>,
  which are not signed.
\<close>

theorem C3_signed_implies_succeeded:
  assumes inv: "signed_implies_succeeded (db s)"
    and run: "run_cycles e ts s = (r, evs, s')"
  shows "signed_implies_succeeded (db s') \<and>
         list_all (\<lambda>(b, p). status b = SUCCEEDED \<and> \<not> signed b) (filter_unsigned (db s')) \<and>
         list_all (\<lambda>b. status b = BUILDING \<and> \<not> signed b) (filter_building (db s'))"
proof -
  have "signed_implies_succeeded (db s')"
    by (rule run_cycles_invariant [where Q = signed_implies_succeeded, OF run inv])
      (auto intro: check_cycle_signed_implies_succeeded sign_cycle_signed_implies_succeeded)
  then show ?thesis
    by (auto simp: list_all_iff filter_unsigned_set filter_building_set
        signed_implies_succeeded_def)
qed

theorem C3_signed_implies_succeeded_witness:
  "signed_implies_succeeded (db (store [koji_build 2 42 BUILDING])) \<and>
   run_cycles fake_env [Check_build_status, Sign_unsigned_builds]
     (store [koji_build 2 42 BUILDING]) =
   (Inr (),
    [LogDebug ''[*] Running periodic task: check_build_status'',
     Ext (GetTaskInfo 42) None,
     SaveBuild (koji_build 2 42 SUCCEEDED),
     SavePackage (foo_package\<lparr>last_build := Some 1000\<rparr>),
     Sleep 300,
     LogDebug ''[*] Running periodic task: sign_unsigned_builds'',
     Ext (PackageListAdd ''dist-compose'' ''foo'' ''distrobuild'') None,
     Ext (ListBuilds 42) None,
     SaveBuild ((koji_build 2 42 SUCCEEDED)\<lparr>signed := True\<rparr>),
     Sleep 300],
    \<lparr>world = (),
     db = \<lparr>builds = [(koji_build 2 42 SUCCEEDED)\<lparr>signed := True\<rparr>],
           packages = [foo_package\<lparr>last_build := Some 1000\<rparr>]\<rparr>\<rparr>) \<and>
   signed_implies_succeeded
     \<lparr>builds = [(koji_build 2 42 SUCCEEDED)\<lparr>signed := True\<rparr>],
      packages = [foo_package\<lparr>last_build := Some 1000\<rparr>]\<rparr>"
proof -
  let ?s = "store [koji_build 2 42 BUILDING]"
  have inv: "signed_implies_succeeded (db ?s)"
    by (simp add: signed_implies_succeeded_def store_def koji_build_def)
  have run: "run_cycles fake_env [Check_build_status, Sign_unsigned_builds] ?s =
   (Inr (),
    [LogDebug ''[*] Running periodic task: check_build_status'',
     Ext (GetTaskInfo 42) None,
     SaveBuild (koji_build 2 42 SUCCEEDED),
     SavePackage (foo_package\<lparr>last_build := Some 1000\<rparr>),
     Sleep 300,
     LogDebug ''[*] Running periodic task: sign_unsigned_builds'',
     Ext (PackageListAdd ''dist-compose'' ''foo'' ''distrobuild'') None,
     Ext (ListBuilds 42) None,
     SaveBuild ((koji_build 2 42 SUCCEEDED)\<lparr>signed := True\<rparr>),
     Sleep 300],
    \<lparr>world = (),
     db = \<lparr>builds = [(koji_build 2 42 SUCCEEDED)\<lparr>signed := True\<rparr>],
           packages = [foo_package\<lparr>last_build := Some 1000\<rparr>]\<rparr>\<rparr>)"
    by (simp add: check_build_status_cycle_def sign_unsigned_builds_cycle_def catchE_def
        bindE_def returnE_def log_debug_def log_error_def sleep_def filter_building_def
        filter_unsigned_def atomic_check_build_status_def atomic_sign_unsigned_builds_def
        atomic_def check_build_status_body_def sign_unsigned_builds_body_def mark_succeeded_def
        package_name_def call_def save_build_def save_package_def get_package_def
        datetime_now_def update_build_def update_package_def fake_env_sel koji_build_def
        foo_package_def store_def)
  from C3_signed_implies_succeeded [OF inv run] inv run show ?thesis by simp
qed

subsection \<open>Builds without a task of koji\<close>

lemma update_build_pks:
  "build_pk c' = build_pk c \<Longrightarrow> map build_pk (update_build c' rows) = map build_pk rows"
  by (induction rows) (auto simp: update_build_def)

lemma update_build_other:
  "b \<in> set rows \<Longrightarrow> build_pk b \<noteq> build_pk c \<Longrightarrow> b \<in> set (update_build c rows)"
  by (auto simp: update_build_def)

lemma pk_differs:
  assumes "distinct (map build_pk rows)" and "b \<in> set rows" and "c \<in> set rows" and "c \<noteq> b"
  shows "build_pk b \<noteq> build_pk c"
  using assms by (auto simp: distinct_map dest: inj_onD)

lemma kept_update:
  assumes q: "b \<in> set (builds d) \<and> distinct (map build_pk (builds d))"
    and pk: "build_pk c' \<noteq> build_pk b"
    and d': "builds d' = builds d \<or> builds d' = update_build c' (builds d)"
  shows "b \<in> set (builds d') \<and> distinct (map build_pk (builds d'))"
  using assms by (auto simp: update_build_pks update_build_other)

text \<open>
  Claim C9. On a build whose \<^verbatim>\<open>koji_id\<close> is not set the signing task does nothing: no
  event, the same state. Such a build, succeeded and not signed, stays in the table as it
  is through any sequence of passes of the two tasks (the keys of the table being
  distinct), and the query of the signing task selects it after each of them.
\<close>

theorem C9_no_task_no_signing:
  assumes nk: "\<not> truthy (koji_id b)"
    and b: "b \<in> set (builds (db s))" "status b = SUCCEEDED" "\<not> signed b"
    and pks: "distinct (map build_pk (builds (db s)))"
    and run: "run_cycles e ts s = (r, evs, s')"
  shows "atomic_sign_unsigned_builds e (b, p) t = (Inr (), [], t) \<and>
         b \<in> set (builds (db s')) \<and>
         (b, find (\<lambda>p. package_pk p = package_id b) (packages (db s'))) \<in>
           set (filter_unsigned (db s'))"
proof -
  let ?Q = "\<lambda>d. b \<in> set (builds d) \<and> distinct (map build_pk (builds d))"
  have noop: "atomic_sign_unsigned_builds e (b, p) t = (Inr (), [], t)"
    using nk
    by (simp add: atomic_sign_unsigned_builds_def atomic_def sign_unsigned_builds_body_def
        returnE_def)
  have "?Q (db s')"
  proof (rule run_cycles_invariant [where Q = ?Q, OF run])
    show "?Q (db s)" using b pks by simp
  next
    fix s r evs s'
    assume q: "?Q (db s)" and cyc: "check_build_status_cycle e s = (r, evs, s')"
    have "?Q (db s') \<and> r = Inr ()"
    proof (rule check_cycle_invariant [where Q = ?Q, OF cyc q])
      fix c t r evs t'
      assume c: "c \<in> set (filter_building (db s))" and t: "?Q (db t)"
        and step: "atomic_check_build_status e c t = (r, evs, t')"
      from c b(2) have "c \<in> set (builds (db s))" "c \<noteq> b"
        by (auto simp: filter_building_set)
      with q have pk: "build_pk b \<noteq> build_pk c"
        using pk_differs [of "builds (db s)" b c] by simp
      from atomic_check_builds [OF step]
      obtain st where d: "builds (db t') = builds (db t) \<or>
          builds (db t') = update_build (c\<lparr>status := st\<rparr>) (builds (db t))"
        by blast
      from pk have "build_pk (c\<lparr>status := st\<rparr>) \<noteq> build_pk b" by simp
      from kept_update [OF t this d] show "?Q (db t')" .
    qed
    then show "?Q (db s')" ..
  next
    fix s r evs s'
    assume q: "?Q (db s)" and cyc: "sign_unsigned_builds_cycle e s = (r, evs, s')"
    have "?Q (db s') \<and> r = Inr ()"
    proof (rule sign_cycle_invariant [where Q = ?Q, OF cyc q])
      fix cp t r evs t'
      assume cp: "cp \<in> set (filter_unsigned (db s))" and t: "?Q (db t)"
        and step: "atomic_sign_unsigned_builds e cp t = (r, evs, t')"
      obtain c p where [simp]: "cp = (c, p)" by (cases cp)
      from cp have cin: "c \<in> set (builds (db s))"
        by (simp add: filter_unsigned_set)
      from atomic_sign_cases [OF step [simplified]]
      consider (same) "db t' = db t"
        | (saved) "truthy (koji_id c)"
          "builds (db t') = update_build (c\<lparr>signed := True\<rparr>) (builds (db t))"
        by auto
      then show "?Q (db t')"
      proof cases
        case same
        with t show ?thesis by simp
      next
        case saved
        from saved(1) nk have "c \<noteq> b" by auto
        with q cin have pk: "build_pk b \<noteq> build_pk c"
          using pk_differs [of "builds (db s)" b c] by simp
        then have "build_pk (c\<lparr>signed := True\<rparr>) \<noteq> build_pk b" by simp
        moreover from saved(2) have "builds (db t') = builds (db t) \<or>
            builds (db t') = update_build (c\<lparr>signed := True\<rparr>) (builds (db t))"
          by simp
        ultimately show ?thesis by (rule kept_update [OF t])
      qed
    qed
    then show "?Q (db s')" ..
  qed
  with b(2,3) noop show ?thesis
    by (simp add: filter_unsigned_set)
qed

theorem C9_no_task_no_signing_witness:
  "\<not> truthy (koji_id (mbs_build 9 8 SUCCEEDED)) \<and>
   distinct (map build_pk
     (builds (db (store [mbs_build 9 8 SUCCEEDED, koji_build 2 42 BUILDING])))) \<and>
   run_cycles fake_env [Sign_unsigned_builds, Check_build_status, Sign_unsigned_builds]
     (store [mbs_build 9 8 SUCCEEDED, koji_build 2 42 BUILDING]) =
   (Inr (),
    [LogDebug ''[*] Running periodic task: sign_unsigned_builds'',
     Sleep 300,
     LogDebug ''[*] Running periodic task: check_build_status'',
     Ext (GetTaskInfo 42) None,
     SaveBuild (koji_build 2 42 SUCCEEDED),
     SavePackage (foo_package\<lparr>last_build := Some 1000\<rparr>),
     Sleep 300,
     LogDebug ''[*] Running periodic task: sign_unsigned_builds'',
     Ext (PackageListAdd ''dist-compose'' ''foo'' ''distrobuild'') None,
     Ext (ListBuilds 42) None,
     SaveBuild ((koji_build 2 42 SUCCEEDED)\<lparr>signed := True\<rparr>),
     Sleep 300],
    \<lparr>world = (),
     db = \<lparr>builds = [mbs_build 9 8 SUCCEEDED, (koji_build 2 42 SUCCEEDED)\<lparr>signed := True\<rparr>],
           packages = [foo_package\<lparr>last_build := Some 1000\<rparr>]\<rparr>\<rparr>) \<and>
   atomic_sign_unsigned_builds fake_env (mbs_build 9 8 SUCCEEDED, Some foo_package)
     (store [mbs_build 9 8 SUCCEEDED, koji_build 2 42 BUILDING]) =
   (Inr (), [], store [mbs_build 9 8 SUCCEEDED, koji_build 2 42 BUILDING]) \<and>
   (mbs_build 9 8 SUCCEEDED, Some (foo_package\<lparr>last_build := Some 1000\<rparr>)) \<in>
     set (filter_unsigned
       \<lparr>builds = [mbs_build 9 8 SUCCEEDED, (koji_build 2 42 SUCCEEDED)\<lparr>signed := True\<rparr>],
        packages = [foo_package\<lparr>last_build := Some 1000\<rparr>]\<rparr>)"
proof -
  let ?b = "mbs_build 9 8 SUCCEEDED"
  let ?s = "store [?b, koji_build 2 42 BUILDING]"
  have nk: "\<not> truthy (koji_id ?b)"
    by (simp add: mbs_build_def)
  have b: "?b \<in> set (builds (db ?s))" "status ?b = SUCCEEDED" "\<not> signed ?b"
    by (simp_all add: store_def mbs_build_def)
  have pks: "distinct (map build_pk (builds (db ?s)))"
    by (simp add: store_def mbs_build_def koji_build_def)
  have run: "run_cycles fake_env [Sign_unsigned_builds, Check_build_status, Sign_unsigned_builds]
     ?s =
   (Inr (),
    [LogDebug ''[*] Running periodic task: sign_unsigned_builds'',
     Sleep 300,
     LogDebug ''[*] Running periodic task: check_build_status'',
     Ext (GetTaskInfo 42) None,
     SaveBuild (koji_build 2 42 SUCCEEDED),
     SavePackage (foo_package\<lparr>last_build := Some 1000\<rparr>),
     Sleep 300,
     LogDebug ''[*] Running periodic task: sign_unsigned_builds'',
     Ext (PackageListAdd ''dist-compose'' ''foo'' ''distrobuild'') None,
     Ext (ListBuilds 42) None,
     SaveBuild ((koji_build 2 42 SUCCEEDED)\<lparr>signed := True\<rparr>),
     Sleep 300],
    \<lparr>world = (),
     db = \<lparr>builds = [?b, (koji_build 2 42 SUCCEEDED)\<lparr>signed := True\<rparr>],
           packages = [foo_package\<lparr>last_build := Some 1000\<rparr>]\<rparr>\<rparr>)"
    by (simp add: check_build_status_cycle_def sign_unsigned_builds_cycle_def catchE_def
        bindE_def returnE_def log_debug_def log_error_def sleep_def filter_building_def
        filter_unsigned_def atomic_check_build_status_def atomic_sign_unsigned_builds_def
        atomic_def check_build_status_body_def sign_unsigned_builds_body_def mark_succeeded_def
        package_name_def call_def save_build_def save_package_def get_package_def
        datetime_now_def update_build_def update_package_def fake_env_sel koji_build_def
        mbs_build_def foo_package_def store_def)
  have pkg: "find (\<lambda>p. package_pk p = package_id ?b)
      [foo_package\<lparr>last_build := Some 1000\<rparr>] = Some (foo_package\<lparr>last_build := Some 1000\<rparr>)"
    by (simp add: mbs_build_def foo_package_def)
  from C9_no_task_no_signing [OF nk b pks run, of "Some foo_package" ?s] nk pks run pkg
  show ?thesis by simp
qed

subsection \<open>An exception in a pass\<close>

lemma for_builds_stop:
  assumes "for_builds f pre s = (Inr (), evs1, s1)" and "f b s1 = (Inl x, evs2, s2)"
  shows "for_builds f (pre @ b # post) s = (Inl x, evs1 @ evs2, s2)"
  using assms
proof (induction pre arbitrary: s evs1)
  case Nil
  then show ?case by (simp add: returnE_def bindE_def)
next
  case (Cons a pre)
  from Cons.prems(1) have "bindE (f a) (\<lambda>_. for_builds f pre) s = (Inr (), evs1, s1)"
    by simp
  then show ?case
  proof (cases rule: bindE_cases)
    case (raised y)
    then show ?thesis by simp
  next
    case (returned v evs3 s3 evs4)
    from Cons.IH [OF returned(2) Cons.prems(2)] returned(1,3) show ?thesis
      by (simp add: bindE_def)
  qed
qed

lemma atomic_rollback:
  "atomic m s = (Inl x, evs, s') \<Longrightarrow> db s' = db s"
  by (auto simp: atomic_def split: prod.splits sum.splits)

lemma fake_check_50:
  "atomic_check_build_status fake_env (koji_build 1 50 BUILDING) (store bs) =
   (Inl Fault, [Ext (GetTaskInfo 50) (Some Fault)], store bs)"
  by (simp add: atomic_check_build_status_def atomic_def check_build_status_body_def bindE_def
      call_def fake_env_sel koji_build_def store_def)

lemma fake_check_45:
  "atomic_check_build_status fake_env (koji_build 5 45 BUILDING) (store bs) =
   (Inr (), [Ext (GetTaskInfo 45) None], store bs)"
  by (simp add: atomic_check_build_status_def atomic_def check_build_status_body_def bindE_def
      call_def fake_env_sel koji_build_def store_def returnE_def
      TASK_STATES_CLOSED_def TASK_STATES_CANCELED_def TASK_STATES_FAILED_def)

lemma check_cycle_stops:
  assumes "filter_building (db s) = pre @ b # post"
    and "for_builds (atomic_check_build_status e) pre s = (Inr (), evs1, s1)"
    and "atomic_check_build_status e b s1 = (Inl x, evs2, s2)"
  shows "check_build_status_cycle e s =
           (Inr (),
            [LogDebug ''[*] Running periodic task: check_build_status''] @ evs1 @ evs2 @
            [LogError x, Sleep 300], s2) \<and>
         db s2 = db s1"
proof -
  from for_builds_stop [OF assms(2,3)] assms(1)
  have "for_builds (atomic_check_build_status e) (filter_building (db s)) s =
      (Inl x, evs1 @ evs2, s2)"
    by simp
  then have "check_build_status_cycle e s =
           (Inr (),
            [LogDebug ''[*] Running periodic task: check_build_status''] @ evs1 @ evs2 @
            [LogError x, Sleep 300], s2)"
    by (simp add: check_build_status_cycle_def bindE_def catchE_def log_debug_def log_error_def
        sleep_def)
  moreover from assms(3) have "db s2 = db s1"
    by (simp add: atomic_check_build_status_def atomic_rollback)
  ultimately show ?thesis by simp
qed

lemma sign_cycle_stops:
  assumes "filter_unsigned (db t) = pre @ b # post"
    and "for_builds (atomic_sign_unsigned_builds e) pre t = (Inr (), evs1, t1)"
    and "atomic_sign_unsigned_builds e b t1 = (Inl x, evs2, t2)"
  shows "sign_unsigned_builds_cycle e t =
           (Inr (),
            [LogDebug ''[*] Running periodic task: sign_unsigned_builds''] @ evs1 @ evs2 @
            [LogError x, Sleep 300], t2) \<and>
         db t2 = db t1"
proof -
  from for_builds_stop [OF assms(2,3)] assms(1)
  have "for_builds (atomic_sign_unsigned_builds e) (filter_unsigned (db t)) t =
      (Inl x, evs1 @ evs2, t2)"
    by simp
  then have "sign_unsigned_builds_cycle e t =
           (Inr (),
            [LogDebug ''[*] Running periodic task: sign_unsigned_builds''] @ evs1 @ evs2 @
            [LogError x, Sleep 300], t2)"
    by (simp add: sign_unsigned_builds_cycle_def bindE_def catchE_def log_debug_def log_error_def
        sleep_def)
  moreover from assms(3) have "db t2 = db t1"
    by (cases b) (simp add: atomic_sign_unsigned_builds_def atomic_rollback)
  ultimately show ?thesis by simp
qed

text \<open>
  Claim C2, in the form that holds of the code. The \<^verbatim>\<open>try\<close> of each task encloses the whole
  loop over the selected builds. This is stated for each of the two tasks on its own, the
  status task first and the signing task second: when the builds \<open>pre\<close> have been processed
  and the next build raises \<open>x\<close>, the transaction of that build is rolled back, \<open>x\<close> is logged
  once, the pass ends normally with the sleep, and the builds after it are not processed
  in this pass: the outcome does not depend on them.
\<close>

theorem C2_cycle_stops_at_first_failure:
  "(filter_building (db s) = pre @ b # post \<and>
    for_builds (atomic_check_build_status e) pre s = (Inr (), evs1, s1) \<and>
    atomic_check_build_status e b s1 = (Inl x, evs2, s2) \<longrightarrow>
    check_build_status_cycle e s =
      (Inr (),
       [LogDebug ''[*] Running periodic task: check_build_status''] @ evs1 @ evs2 @
       [LogError x, Sleep 300], s2) \<and>
    db s2 = db s1) \<and>
   (filter_unsigned (db t) = pre' @ b' # post' \<and>
    for_builds (atomic_sign_unsigned_builds e) pre' t = (Inr (), evs1', t1) \<and>
    atomic_sign_unsigned_builds e b' t1 = (Inl x', evs2', t2) \<longrightarrow>
    sign_unsigned_builds_cycle e t =
      (Inr (),
       [LogDebug ''[*] Running periodic task: sign_unsigned_builds''] @ evs1' @ evs2' @
       [LogError x', Sleep 300], t2) \<and>
    db t2 = db t1)"
  using check_cycle_stops [of s pre b post e evs1 s1 x evs2 s2]
    sign_cycle_stops [of t pre' b' post' e evs1' t1 x' evs2' t2]
  by blast

theorem C2_cycle_stops_at_first_failure_witness:
  "filter_building (db (store [koji_build 5 45 BUILDING, koji_build 1 50 BUILDING,
       koji_build 2 42 BUILDING])) =
     [koji_build 5 45 BUILDING] @ koji_build 1 50 BUILDING # [koji_build 2 42 BUILDING] \<and>
   for_builds (atomic_check_build_status fake_env) [koji_build 5 45 BUILDING]
     (store [koji_build 5 45 BUILDING, koji_build 1 50 BUILDING, koji_build 2 42 BUILDING]) =
     (Inr (), [Ext (GetTaskInfo 45) None],
      store [koji_build 5 45 BUILDING, koji_build 1 50 BUILDING, koji_build 2 42 BUILDING]) \<and>
   atomic_check_build_status fake_env (koji_build 1 50 BUILDING)
     (store [koji_build 5 45 BUILDING, koji_build 1 50 BUILDING, koji_build 2 42 BUILDING]) =
     (Inl Fault, [Ext (GetTaskInfo 50) (Some Fault)],
      store [koji_build 5 45 BUILDING, koji_build 1 50 BUILDING, koji_build 2 42 BUILDING]) \<and>
   check_build_status_cycle fake_env
     (store [koji_build 5 45 BUILDING, koji_build 1 50 BUILDING, koji_build 2 42 BUILDING]) =
   (Inr (),
    [LogDebug ''[*] Running periodic task: check_build_status'',
     Ext (GetTaskInfo 45) None,
     Ext (GetTaskInfo 50) (Some Fault), LogError Fault, Sleep 300],
    store [koji_build 5 45 BUILDING, koji_build 1 50 BUILDING, koji_build 2 42 BUILDING]) \<and>
   filter_unsigned (db (store [koji_build 1 47 SUCCEEDED, koji_build 2 44 SUCCEEDED])) =
     [] @ (koji_build 1 47 SUCCEEDED, Some foo_package) #
       [(koji_build 2 44 SUCCEEDED, Some foo_package)] \<and>
   for_builds (atomic_sign_unsigned_builds fake_env) []
     (store [koji_build 1 47 SUCCEEDED, koji_build 2 44 SUCCEEDED]) =
     (Inr (), [], store [koji_build 1 47 SUCCEEDED, koji_build 2 44 SUCCEEDED]) \<and>
   atomic_sign_unsigned_builds fake_env (koji_build 1 47 SUCCEEDED, Some foo_package)
     (store [koji_build 1 47 SUCCEEDED, koji_build 2 44 SUCCEEDED]) =
   (Inl OtherException,
    [Ext (PackageListAdd ''dist-compose'' ''foo'' ''distrobuild'') None,
     Ext (ListBuilds 47) None,
     Ext (QueryHistory 4) None,
     Ext (TagBuild ''dist-compose'' ''qux-1.0-1'') None,
     Ext (ListBuildRPMs 4) None,
     Ext (QueryRPMSigs 12) None,
     Ext (SignKojiPackage ''qux-1.0-1.src'') (Some OtherException)],
    store [koji_build 1 47 SUCCEEDED, koji_build 2 44 SUCCEEDED]) \<and>
   sign_unsigned_builds_cycle fake_env
     (store [koji_build 1 47 SUCCEEDED, koji_build 2 44 SUCCEEDED]) =
   (Inr (),
    [LogDebug ''[*] Running periodic task: sign_unsigned_builds'',
     Ext (PackageListAdd ''dist-compose'' ''foo'' ''distrobuild'') None,
     Ext (ListBuilds 47) None,
     Ext (QueryHistory 4) None,
     Ext (TagBuild ''dist-compose'' ''qux-1.0-1'') None,
     Ext (ListBuildRPMs 4) None,
     Ext (QueryRPMSigs 12) None,
     Ext (SignKojiPackage ''qux-1.0-1.src'') (Some OtherException),
     LogError OtherException, Sleep 300],
    store [koji_build 1 47 SUCCEEDED, koji_build 2 44 SUCCEEDED])"
proof -
  let ?s = "store [koji_build 5 45 BUILDING, koji_build 1 50 BUILDING, koji_build 2 42 BUILDING]"
  let ?t = "store [koji_build 1 47 SUCCEEDED, koji_build 2 44 SUCCEEDED]"
  have a1: "filter_building (db ?s) =
      [koji_build 5 45 BUILDING] @ koji_build 1 50 BUILDING # [koji_build 2 42 BUILDING]"
    by (simp add: filter_building_def store_def koji_build_def)
  have a2: "for_builds (atomic_check_build_status fake_env) [koji_build 5 45 BUILDING] ?s =
      (Inr (), [Ext (GetTaskInfo 45) None], ?s)"
    by (simp add: fake_check_45 bindE_def returnE_def)
  have a3: "atomic_check_build_status fake_env (koji_build 1 50 BUILDING) ?s =
      (Inl Fault, [Ext (GetTaskInfo 50) (Some Fault)], ?s)"
    by (rule fake_check_50)
  have a4: "filter_unsigned (db ?t) =
      [] @ (koji_build 1 47 SUCCEEDED, Some foo_package) #
        [(koji_build 2 44 SUCCEEDED, Some foo_package)]"
    by (simp add: filter_unsigned_def store_def koji_build_def foo_package_def)
  have a5: "for_builds (atomic_sign_unsigned_builds fake_env) [] ?t = (Inr (), [], ?t)"
    by (simp add: returnE_def)
  have a6: "atomic_sign_unsigned_builds fake_env (koji_build 1 47 SUCCEEDED, Some foo_package) ?t =
   (Inl OtherException,
    [Ext (PackageListAdd ''dist-compose'' ''foo'' ''distrobuild'') None,
     Ext (ListBuilds 47) None,
     Ext (QueryHistory 4) None,
     Ext (TagBuild ''dist-compose'' ''qux-1.0-1'') None,
     Ext (ListBuildRPMs 4) None,
     Ext (QueryRPMSigs 12) None,
     Ext (SignKojiPackage ''qux-1.0-1.src'') (Some OtherException)],
    ?t)"
    by (rule fake_sign_47)
  have c1: "check_build_status_cycle fake_env ?s =
   (Inr (),
    [LogDebug ''[*] Running periodic task: check_build_status'',
     Ext (GetTaskInfo 45) None,
     Ext (GetTaskInfo 50) (Some Fault), LogError Fault, Sleep 300], ?s)"
    using C2_cycle_stops_at_first_failure [THEN conjunct1, THEN mp, OF conjI [OF a1 conjI [OF a2 a3]]] by simp
  have c2: "sign_unsigned_builds_cycle fake_env ?t =
   (Inr (),
    [LogDebug ''[*] Running periodic task: sign_unsigned_builds'',
     Ext (PackageListAdd ''dist-compose'' ''foo'' ''distrobuild'') None,
     Ext (ListBuilds 47) None,
     Ext (QueryHistory 4) None,
     Ext (TagBuild ''dist-compose'' ''qux-1.0-1'') None,
     Ext (ListBuildRPMs 4) None,
     Ext (QueryRPMSigs 12) None,
     Ext (SignKojiPackage ''qux-1.0-1.src'') (Some OtherException),
     LogError OtherException, Sleep 300], ?t)"
    using C2_cycle_stops_at_first_failure [THEN conjunct2, THEN mp, OF conjI [OF a4 conjI [OF a5 a6]]] by simp
  from a1 a2 a3 c1 a4 a5 a6 c2 show ?thesis by (intro conjI)
qed

text \<open>
  In the wording of the specification every remaining build is still processed. Here the state of task
  50 cannot be read; build 2, whose task 42 is closed, comes after it and is left as it
  was, with no call for its task.
\<close>

theorem C2_counterexample:
  "check_build_status_cycle fake_env
     (store [koji_build 1 50 BUILDING, koji_build 2 42 BUILDING]) =
   (Inr (),
    [LogDebug ''[*] Running periodic task: check_build_status'',
     Ext (GetTaskInfo 50) (Some Fault), LogError Fault, Sleep 300],
    store [koji_build 1 50 BUILDING, koji_build 2 42 BUILDING]) \<and>
   getTaskInfo fake_env 42 () = (Inr TASK_STATES_CLOSED, ())"
  by (simp add: check_build_status_cycle_def catchE_def bindE_def log_debug_def log_error_def
      sleep_def filter_building_def atomic_check_build_status_def atomic_def
      check_build_status_body_def call_def fake_env_sel koji_build_def store_def)

subsection \<open>A failed signer and the next pass\<close>















end
